theory Spec2Isabelle
  imports Main "HOL-Library.Sublist"
begin

section \<open>Python strings and values\<close>

text \<open>
  The planning chat of RoboBrain 2.0 (\<^verbatim>\<open>scripts/planning_chat.py\<close>) is embedded
  function by function. A Python \<^verbatim>\<open>str\<close> is a \<^typ>\<open>string\<close>; one \<^typ>\<open>char\<close> stands for
  one character, so the embedding covers texts whose characters lie below code point 256.
  Printing to the terminal is not part of the model.
\<close>

datatype py_error = KeyError string | IndexError | AttributeError

text \<open>The values stored in a step record: texts and the success flag.\<close>

datatype pyval = PStr string | PBool bool

text \<open>\<^verbatim>\<open>str(v)\<close> as an f-string applies it, and Python's truth value of an optional entry.\<close>

fun py_str :: "pyval \<Rightarrow> string" where
  "py_str (PStr s) = s"
| "py_str (PBool b) = (if b then ''True'' else ''False'')"

fun truthy :: "pyval option \<Rightarrow> bool" where
  "truthy None = False"
| "truthy (Some (PStr s)) = (s \<noteq> [])"
| "truthy (Some (PBool b)) = b"

text \<open>\<^verbatim>\<open>d.get(k, default)\<close> on a dictionary.\<close>

definition dict_get :: "('k \<rightharpoonup> 'v) \<Rightarrow> 'k \<Rightarrow> 'v \<Rightarrow> 'v" where
  "dict_get d k dflt = (case d k of None \<Rightarrow> dflt | Some v \<Rightarrow> v)"

text \<open>\<^verbatim>\<open>x or default\<close> for an optional text: \<^verbatim>\<open>None\<close> and the empty text are both false.\<close>

definition py_or :: "string option \<Rightarrow> string \<Rightarrow> string" where
  "py_or x dflt = (case x of None \<Rightarrow> dflt | Some s \<Rightarrow> if s = [] then dflt else s)"

text \<open>\<^verbatim>\<open>str(n)\<close> for a natural number: its decimal digits.\<close>

definition digit_char :: "nat \<Rightarrow> char" where
  "digit_char d = ''0123456789'' ! d"

function str_nat :: "nat \<Rightarrow> string" where
  "str_nat n = (if n < 10 then [digit_char n] else str_nat (n div 10) @ [digit_char (n mod 10)])"
  by pat_completeness auto
termination
  by (relation "measure (\<lambda>n. n)") auto

declare str_nat.simps [simp del]

text \<open>\<^verbatim>\<open>sep.join(xs)\<close>.\<close>

fun join :: "string \<Rightarrow> string list \<Rightarrow> string" where
  "join sep [] = []"
| "join sep [x] = x"
| "join sep (x # y # ys) = x @ sep @ join sep (y # ys)"

text \<open>\<^verbatim>\<open>s.split(sep)\<close> for a one-character separator: never the empty list.\<close>

fun split_chr :: "char \<Rightarrow> string \<Rightarrow> string list" where
  "split_chr sep [] = [[]]"
| "split_chr sep (c # cs) =
     (if c = sep then [] # split_chr sep cs
      else (case split_chr sep cs of [] \<Rightarrow> [[c]] | l # ls \<Rightarrow> (c # l) # ls))"

text \<open>
  \<^verbatim>\<open>s.strip()\<close> removes leading and trailing whitespace. \<^verbatim>\<open>str.isspace\<close> holds below
  code point 256 for tab, line feed, vertical tab, form feed, carriage return, the four
  separators 0x1C to 0x1F, space, 0x85 and 0xA0.
\<close>

definition isspace :: "char \<Rightarrow> bool" where
  "isspace c = (c \<in> set [CHR 0x09, CHR 0x0A, CHR 0x0B, CHR 0x0C, CHR 0x0D,
     CHR 0x1C, CHR 0x1D, CHR 0x1E, CHR 0x1F, CHR 0x20, CHR 0x85, CHR 0xA0])"

definition strip :: "string \<Rightarrow> string" where
  "strip s = rev (dropWhile isspace (rev (dropWhile isspace s)))"

text \<open>
  \<^verbatim>\<open>s.replace(old, new)\<close>: every occurrence of \<^verbatim>\<open>old\<close>, found from left to right without
  overlap, is replaced. With an empty \<^verbatim>\<open>old\<close> Python puts \<^verbatim>\<open>new\<close> around every character.
\<close>

fun replace :: "string \<Rightarrow> string \<Rightarrow> string \<Rightarrow> string" where
  "replace old new [] = (if old = [] then new else [])"
| "replace old new (c # cs) =
     (if old = [] then new @ c # replace old new cs
      else if prefix old (c # cs) then new @ replace old new (drop (length old - 1) cs)
      else c # replace old new cs)"

section \<open>Planning question templates\<close>

record template_info =
  description :: string
  templates :: "string list"

definition PLANNING_TEMPLATES_items :: "(string \<times> template_info) list" where
  "PLANNING_TEMPLATES_items = [
    (''planning'', \<lparr>description = ''Determine the next step to achieve a long-horizon goal'',
      templates = [
        ''The objective is {goal}, what should be the next step to move forward?'',
        ''In pursuit of achieving {goal}, what's the next action to take?'',
        ''To reach the goal of {goal}, which task should be prioritized next?'',
        ''Given the goal of {goal}, what is the most logical next move?'',
        ''With the aim of {goal}, what should you focus on next?'']\<rparr>),
    (''planning_with_context'', \<lparr>description = ''Determine next step given completed tasks'',
      templates = [
        ''So far, you've completed these steps: {completed_steps}. What's the next move to achieve the goal of {goal}?'',
        ''With the following steps completed: {completed_steps}. What is the next logical step toward {goal}?'',
        ''Considering the goal of {goal}, and having done {completed_steps}, what should you do next?'',
        ''You are working towards {goal}. After completing steps {completed_steps}, what's the next immediate task?'',
        ''Given your progress so far ({completed_steps}), what's the next step toward achieving {goal}?'']\<rparr>),
    (''planning_remaining'', \<lparr>description = ''Determine the next N steps to complete a goal'',
      templates = [
        ''With {goal} as the goal and the steps {completed_steps} completed, what are the next {num_steps} things to do?'',
        ''To work toward {goal}, what are the next {num_steps} steps after completing {completed_steps}?'',
        ''Here's what's been done so far: {completed_steps}. What are the next {num_steps} tasks to take toward the goal of {goal}?'',
        ''The goal is {goal}. After completing {completed_steps}, what are the next {num_steps} steps you should take?'',
        ''Given the progress so far: {completed_steps}, what's the next set of {num_steps} steps to move closer to {goal}?'']\<rparr>),
    (''future_prediction'', \<lparr>description = ''Predict what will happen after a task'',
      templates = [
        ''Based on the current situation, what is expected to happen after {last_task}?'',
        ''What do you think will happen after {last_task} is completed?'',
        ''Considering the current sequence of tasks, what's likely to occur after {last_task}?'',
        ''Given the context, what will most likely happen following {last_task}?'',
        ''After {last_task}, what's the most probable next event?'']\<rparr>),
    (''success_detection'', \<lparr>description = ''Determine if a task was completed successfully'',
      templates = [
        ''Was {task} completed successfully?'',
        ''Has {task} been fully carried out?'',
        ''Has {task} reached completion?'',
        ''Was {task} finalized?'',
        ''Can we say that {task} was accomplished?'']\<rparr>),
    (''affordance_positive'', \<lparr>description = ''Determine if a task can be done right now'',
      templates = [
        ''Is {task} something that can be accomplished right now?'',
        ''Can {task} be initiated at this moment?'',
        ''Is it feasible to begin {task} immediately?'',
        ''Is now a suitable time to carry out {task}?'',
        ''Can you proceed with {task} given the current conditions?'']\<rparr>),
    (''affordance_negative'', \<lparr>description = ''Determine if a specific task is currently being done'',
      templates = [
        ''Is {task} what you're working on at the moment?'',
        ''Are you currently engaged in {task}?'',
        ''Is this {task} you're focused on right now?'',
        ''Is this {task} you're handling at present?'',
        ''Are you doing {task} at this very moment?'']\<rparr>),
    (''generative_affordance'', \<lparr>description = ''Determine what actions are possible right now'',
      templates = [
        ''What can you do at this moment?'',
        ''Which task is possible to start right now?'',
        ''Given the current situation, what action can be taken?'',
        ''What's the next available action?'',
        ''Considering the circumstances, what task can you begin now?'']\<rparr>),
    (''past_description'', \<lparr>description = ''Describe what task was just completed'',
      templates = [
        ''What was the last task completed?'',
        ''What just occurred?'',
        ''What was the most recent action taken?'',
        ''What task did you just finish?'',
        ''What happened immediately before this?'']\<rparr>)]"

definition PLANNING_TEMPLATES :: "string \<rightharpoonup> template_info" where
  "PLANNING_TEMPLATES = map_of PLANNING_TEMPLATES_items"

section \<open>Planning session\<close>

text \<open>
  A history entry is the dictionary \<^verbatim>\<open>{"task", "status", "timestamp"}\<close>; the time stamp is
  \<^verbatim>\<open>datetime.now().isoformat()\<close>, which the model takes as an argument.
\<close>

record history_entry =
  h_task :: string
  h_status :: string
  h_timestamp :: string

record PlanningSession =
  goal :: "string option"
  completed_tasks :: "string list"
  current_task :: "string option"
  task_history :: "history_entry list"
  run_dir :: "string option"

definition PlanningSession_init :: PlanningSession where
  "PlanningSession_init =
     \<lparr>goal = None, completed_tasks = [], current_task = None, task_history = [], run_dir = None\<rparr>"

definition set_goal :: "string \<Rightarrow> PlanningSession \<Rightarrow> PlanningSession" where
  "set_goal g s = s\<lparr>goal := Some g, completed_tasks := [], current_task := None\<rparr>"

definition add_completed_task :: "string \<Rightarrow> string \<Rightarrow> PlanningSession \<Rightarrow> PlanningSession" where
  "add_completed_task now t s =
     s\<lparr>completed_tasks := completed_tasks s @ [t],
       task_history := task_history s @ [\<lparr>h_task = t, h_status = ''completed'', h_timestamp = now\<rparr>]\<rparr>"

definition set_current_task :: "string \<Rightarrow> PlanningSession \<Rightarrow> PlanningSession" where
  "set_current_task t s = s\<lparr>current_task := Some t\<rparr>"

definition get_completed_steps_str :: "PlanningSession \<Rightarrow> string" where
  "get_completed_steps_str s =
     (if completed_tasks s = [] then ''none''
      else join '', '' (map (\<lambda>(i, t). str_nat (i + 1) @ ''-'' @ t) (enumerate 0 (completed_tasks s))))"

definition get_last_task :: "PlanningSession \<Rightarrow> string" where
  "get_last_task s =
     (if completed_tasks s \<noteq> [] then last (completed_tasks s) else ''starting the task'')"

definition reset :: "PlanningSession \<Rightarrow> PlanningSession" where
  "reset s = s\<lparr>goal := None, completed_tasks := [], current_task := None, task_history := []\<rparr>"

text \<open>The four mutating operations as commands, and a run of commands from a state.\<close>

datatype session_op =
  SetGoal string | AddCompletedTask string string | SetCurrentTask string | Reset

fun apply_op :: "session_op \<Rightarrow> PlanningSession \<Rightarrow> PlanningSession" where
  "apply_op (SetGoal g) s = set_goal g s"
| "apply_op (AddCompletedTask now t) s = add_completed_task now t s"
| "apply_op (SetCurrentTask t) s = set_current_task t s"
| "apply_op Reset s = reset s"

definition run_ops :: "session_op list \<Rightarrow> PlanningSession \<Rightarrow> PlanningSession" where
  "run_ops ops s = foldl (\<lambda>s' op. apply_op op s') s ops"

definition session_inv :: "PlanningSession \<Rightarrow> bool" where
  "session_inv s = (length (completed_tasks s) \<le> length (task_history s))"

section \<open>Planning executor\<close>

text \<open>
  \<^verbatim>\<open>random.choice\<close> reads the generator of Python's \<^verbatim>\<open>random\<close> module, a global of the
  process. The model makes that generator a value: the sequence of its raw draws and the
  position reached. A choice from an empty sequence raises \<^verbatim>\<open>IndexError\<close>.
\<close>

type_synonym rng = "(nat \<Rightarrow> nat) \<times> nat"

definition random_choice :: "rng \<Rightarrow> 'a list \<Rightarrow> py_error + ('a \<times> rng)" where
  "random_choice r xs =
     (if xs = [] then Inl IndexError
      else Inr (xs ! (fst r (snd r) mod length xs), (fst r, Suc (snd r))))"

type_synonym kwargs = "string \<rightharpoonup> string"

text \<open>The dictionary \<^verbatim>\<open>replacements\<close> of \<^verbatim>\<open>generate_prompt\<close>, in insertion order.\<close>

definition replacements :: "PlanningSession \<Rightarrow> kwargs \<Rightarrow> (string \<times> string) list" where
  "replacements s kw =
     [(''goal'', dict_get kw ''goal'' (py_or (goal s) ''complete the task'')),
      (''completed_steps'', dict_get kw ''completed_steps'' (get_completed_steps_str s)),
      (''last_task'', dict_get kw ''last_task'' (get_last_task s)),
      (''task'', dict_get kw ''task'' (py_or (current_task s) ''the current task'')),
      (''num_steps'', dict_get kw ''num_steps'' ''5'')]"

text \<open>The loop over \<^verbatim>\<open>replacements.items()\<close>: one \<^verbatim>\<open>replace\<close> after the other.\<close>

definition fill_template :: "(string \<times> string) list \<Rightarrow> string \<Rightarrow> string" where
  "fill_template reps template =
     foldl (\<lambda>t (key, value). replace (''{'' @ key @ ''}'') value t) template reps"

definition generate_prompt ::
  "rng \<Rightarrow> PlanningSession \<Rightarrow> string \<Rightarrow> kwargs \<Rightarrow> py_error + (string \<times> rng)" where
  "generate_prompt r s query_type kw =
     (case PLANNING_TEMPLATES query_type of
        None \<Rightarrow> Inr (dict_get kw ''custom_prompt'' ''Describe what you see.'', r)
      | Some info \<Rightarrow>
          (case random_choice r (templates info) of
             Inl e \<Rightarrow> Inl e
           | Inr (template, r') \<Rightarrow> Inr (fill_template (replacements s kw) template, r')))"

subsection \<open>Task extraction\<close>

definition task_prefixes :: "string list" where
  "task_prefixes = [''The next step is to '', ''You should '', ''First, '', ''1. '', ''- '']"

text \<open>The inner loop: a prefix that the line starts with is cut off, then the next is tried.\<close>

definition remove_prefixes :: "string list \<Rightarrow> string \<Rightarrow> string" where
  "remove_prefixes ps line =
     foldl (\<lambda>l p. if prefix p l then drop (length p) l else l) line ps"

fun extract_from_lines :: "string list \<Rightarrow> string option" where
  "extract_from_lines [] = None"
| "extract_from_lines (l # ls) =
     (let line = strip l in
      if line \<noteq> [] \<and> length line > 10
      then Some (take 100 (remove_prefixes task_prefixes line))
      else extract_from_lines ls)"

definition extract_task_from_answer :: "string \<Rightarrow> string option" where
  "extract_task_from_answer answer = extract_from_lines (split_chr CHR 0x0A answer)"

text \<open>
  The extraction as the specification words it, for comparison: the first non-empty line
  longer than 10 characters, prefixes removed, cut to 100 characters. The lines are taken
  as they are.
\<close>

fun extract_from_lines_as_stated :: "string list \<Rightarrow> string option" where
  "extract_from_lines_as_stated [] = None"
| "extract_from_lines_as_stated (l # ls) =
     (if l \<noteq> [] \<and> length l > 10
      then Some (take 100 (remove_prefixes task_prefixes l))
      else extract_from_lines_as_stated ls)"

definition extract_task_as_stated :: "string \<Rightarrow> string option" where
  "extract_task_as_stated answer = extract_from_lines_as_stated (split_chr CHR 0x0A answer)"

subsection \<open>Executor state\<close>

text \<open>
  A step record is the dictionary that \<^verbatim>\<open>ask_planning\<close> returns; the results of a
  pipeline run are the dictionary \<^verbatim>\<open>{"goal", "steps", "success", "timestamp"}\<close>.
\<close>

type_synonym step = "string \<rightharpoonup> pyval"

record pipeline_results =
  r_goal :: string
  steps :: "step list"
  r_success :: bool
  r_timestamp :: string

text \<open>
  A file holds either the results dictionary that \<^verbatim>\<open>json.dump\<close> wrote or the text of the
  summary.
\<close>

datatype file_content = JsonFile pipeline_results | TextFile string

text \<open>
  The executor object (\<^verbatim>\<open>chat\<close>, \<^verbatim>\<open>session\<close>, \<^verbatim>\<open>run_dir\<close>) together with the state
  of the process that its methods touch: the random generator and the file system. The
  chat object is a \<^verbatim>\<open>MultiTurnInference\<close> of \<^verbatim>\<open>conversation_memory.py\<close>; its state is
  the type parameter, and its method \<^verbatim>\<open>ask(prompt, task, enable_thinking)\<close> is an argument
  \<open>ask\<close> of the functions below, which returns the result dictionary and the new state.
\<close>

record 'c executor =
  chat :: 'c
  session :: PlanningSession
  executor_run_dir :: "string option"
  random_state :: rng
  files :: "string \<rightharpoonup> file_content"
  directories :: "string set"

type_synonym 'c ask_fn = "'c \<Rightarrow> string \<Rightarrow> string \<Rightarrow> bool \<Rightarrow> (string \<rightharpoonup> string) \<times> 'c"

definition RESULTS_BASE_DIR :: string where
  "RESULTS_BASE_DIR = ''results/planning''"

text \<open>
  \<^verbatim>\<open>set_image\<close>; \<open>stamp\<close> is \<^verbatim>\<open>datetime.now().strftime("%Y%m%d_%H%M%S")\<close> and
  \<open>chat_set_image\<close> the method of the chat object.
\<close>

definition set_image ::
  "('c \<Rightarrow> string \<Rightarrow> 'c) \<Rightarrow> string \<Rightarrow> string \<Rightarrow> 'c executor \<Rightarrow> 'c executor" where
  "set_image chat_set_image image_path stamp ex =
     (let d = RESULTS_BASE_DIR @ ''/run_'' @ stamp in
      ex\<lparr>chat := chat_set_image (chat ex) image_path,
         executor_run_dir := Some d,
         directories := insert d (directories ex),
         session := (session ex)\<lparr>run_dir := Some d\<rparr>\<rparr>)"

text \<open>The dictionary that \<^verbatim>\<open>ask_planning\<close> builds from the prompt and the result of the call.\<close>

definition step_record :: "string \<Rightarrow> string \<Rightarrow> (string \<rightharpoonup> string) \<Rightarrow> step" where
  "step_record query_type prompt result =
     (let answer = dict_get result ''answer'' [];
          thinking = dict_get result ''thinking'' []
      in [''query_type'' \<mapsto> PStr query_type,
          ''prompt'' \<mapsto> PStr prompt,
          ''answer'' \<mapsto> PStr answer,
          ''thinking'' \<mapsto> PStr thinking,
          ''success'' \<mapsto> PBool True])"

definition ask_planning ::
  "'c ask_fn \<Rightarrow> string \<Rightarrow> bool \<Rightarrow> kwargs \<Rightarrow> 'c executor \<Rightarrow> py_error + (step \<times> 'c executor)" where
  "ask_planning ask query_type enable_thinking kw ex =
     (case generate_prompt (random_state ex) (session ex) query_type kw of
        Inl e \<Rightarrow> Inl e
      | Inr (prompt, r') \<Rightarrow>
          (case ask (chat ex) prompt ''general'' enable_thinking of
             (result, c') \<Rightarrow>
               Inr (step_record query_type prompt result,
                    ex\<lparr>chat := c', random_state := r'\<rparr>)))"

subsection \<open>Saving a pipeline run\<close>

definition step_text :: "nat \<times> step \<Rightarrow> string" where
  "step_text = (\<lambda>(i, step).
     replicate 40 CHR ''-'' @ ''\<newline>'' @
     ''Step '' @ str_nat i @ '': '' @ py_str (dict_get step ''query_type'' (PStr ''N/A'')) @ ''\<newline>'' @
     replicate 40 CHR ''-'' @ ''\<newline>'' @
     ''Prompt: '' @ py_str (dict_get step ''prompt'' (PStr ''N/A'')) @ ''\<newline>\<newline>'' @
     ''Answer:\<newline>'' @ py_str (dict_get step ''answer'' (PStr ''N/A'')) @ ''\<newline>\<newline>'' @
     (if truthy (step ''thinking'')
      then ''Thinking:\<newline>'' @ py_str (dict_get step ''thinking'' (PStr [])) @ ''\<newline>\<newline>''
      else []))"

definition summary_text :: "pipeline_results \<Rightarrow> string" where
  "summary_text results =
     replicate 60 CHR ''='' @ ''\<newline>'' @
     ''PLANNING PIPELINE SUMMARY\<newline>'' @
     replicate 60 CHR ''='' @ ''\<newline>\<newline>'' @
     ''Goal: '' @ r_goal results @ ''\<newline>'' @
     ''Timestamp: '' @ r_timestamp results @ ''\<newline>\<newline>'' @
     concat (map step_text (enumerate 1 (steps results)))"

definition save_pipeline_results :: "pipeline_results \<Rightarrow> 'c executor \<Rightarrow> 'c executor" where
  "save_pipeline_results results ex =
     (case executor_run_dir ex of
        None \<Rightarrow> ex
      | Some d \<Rightarrow>
          ex\<lparr>files := (files ex)
               (d @ ''/pipeline_results.json'' \<mapsto> JsonFile results,
                d @ ''/pipeline_summary.txt'' \<mapsto> TextFile (summary_text results))\<rparr>)"

subsection \<open>The pipeline\<close>

text \<open>
  \<^verbatim>\<open>run_planning_pipeline\<close>; \<open>now\<close> is \<^verbatim>\<open>datetime.now().isoformat()\<close>. Reading
  \<^verbatim>\<open>step2["answer"]\<close> raises \<^verbatim>\<open>KeyError\<close> on a record without that key, and \<^verbatim>\<open>split\<close> is
  no attribute of a value that is not a text. \<^verbatim>\<open>if first_task\<close> holds for a task that is
  neither \<^verbatim>\<open>None\<close> nor empty.
\<close>

definition run_planning_pipeline ::
  "'c ask_fn \<Rightarrow> string \<Rightarrow> bool \<Rightarrow> string \<Rightarrow> 'c executor
     \<Rightarrow> py_error + (pipeline_results \<times> 'c executor)" where
  "run_planning_pipeline ask goal_text enable_thinking now ex =
     (let ex0 = ex\<lparr>session := set_goal goal_text (session ex)\<rparr>;
          results = \<lparr>r_goal = goal_text, steps = [], r_success = True, r_timestamp = now\<rparr>
      in
      (case ask_planning ask ''generative_affordance'' enable_thinking Map.empty ex0 of
         Inl e \<Rightarrow> Inl e
       | Inr (step1, ex1) \<Rightarrow>
      (let results1 = results\<lparr>steps := steps results @ [step1]\<rparr> in
      (case ask_planning ask ''planning'' enable_thinking [''goal'' \<mapsto> goal_text] ex1 of
         Inl e \<Rightarrow> Inl e
       | Inr (step2, ex2) \<Rightarrow>
      (let results2 = results1\<lparr>steps := steps results1 @ [step2]\<rparr> in
      (case step2 ''answer'' of
         None \<Rightarrow> Inl (KeyError ''answer'')
       | Some (PBool b) \<Rightarrow> Inl AttributeError
       | Some (PStr answer) \<Rightarrow>
      (let first_task = extract_task_from_answer answer;
           ex2' = (case first_task of
                     None \<Rightarrow> ex2
                   | Some t \<Rightarrow>
                       if t \<noteq> [] then ex2\<lparr>session := set_current_task t (session ex2)\<rparr>
                       else ex2)
       in
      (case ask_planning ask ''affordance_positive'' enable_thinking
              [''task'' \<mapsto> py_or first_task ''the first step''] ex2' of
         Inl e \<Rightarrow> Inl e
       | Inr (step3, ex3) \<Rightarrow>
      (let results3 = results2\<lparr>steps := steps results2 @ [step3]\<rparr> in
      (case ask_planning ask ''planning_remaining'' enable_thinking
              [''goal'' \<mapsto> goal_text, ''num_steps'' \<mapsto> ''5''] ex3 of
         Inl e \<Rightarrow> Inl e
       | Inr (step4, ex4) \<Rightarrow>
      (let results4 = results3\<lparr>steps := steps results3 @ [step4]\<rparr> in
       Inr (results4, save_pipeline_results results4 ex4))))))))))))"

subsection \<open>Placeholders of a template\<close>

text \<open>
  A template read as the specification reads it: literal text and placeholders
  \<^verbatim>\<open>{name}\<close>. \<open>segments\<close> cuts a template at its braces, \<open>flatten\<close> writes the
  segments back as text, and \<open>substitute\<close> puts for every placeholder the value of its
  variable, all placeholders at once. An opening brace without its closing brace stays
  literal text.
\<close>

datatype segment = Lit string | Var string

definition placeholder :: "string \<Rightarrow> string" where
  "placeholder name = ''{'' @ name @ ''}''"

fun scan_lit :: "string \<Rightarrow> string \<Rightarrow> segment list"
  and scan_var :: "string \<Rightarrow> string \<Rightarrow> segment list" where
  "scan_lit acc [] = [Lit (rev acc)]"
| "scan_lit acc (c # cs) =
     (if c = CHR ''{'' then Lit (rev acc) # scan_var [] cs else scan_lit (c # acc) cs)"
| "scan_var acc [] = [Lit (CHR ''{'' # rev acc)]"
| "scan_var acc (c # cs) =
     (if c = CHR ''}'' then Var (rev acc) # scan_lit [] cs else scan_var (c # acc) cs)"

definition segments :: "string \<Rightarrow> segment list" where
  "segments t = scan_lit [] t"

fun flatten :: "segment list \<Rightarrow> string" where
  "flatten [] = []"
| "flatten (Lit s # segs) = s @ flatten segs"
| "flatten (Var n # segs) = placeholder n @ flatten segs"

fun substitute :: "(string \<times> string) list \<Rightarrow> segment list \<Rightarrow> string" where
  "substitute reps [] = []"
| "substitute reps (Lit s # segs) = s @ substitute reps segs"
| "substitute reps (Var n # segs) =
     (case map_of reps n of None \<Rightarrow> placeholder n | Some v \<Rightarrow> v) @ substitute reps segs"

definition placeholder_names :: "string list" where
  "placeholder_names = [''goal'', ''completed_steps'', ''last_task'', ''task'', ''num_steps'']"

text \<open>
  The characters that can follow the opening brace inside one of the five placeholders:
  the characters of the names, and the closing brace.
\<close>

definition inner_chars :: "char set" where
  "inner_chars = set ''abcdefghijklmnopqrstuvwxyz_}''"

text \<open>
  A template is well formed when every brace in it belongs to a placeholder of one of the
  five variables, and every placeholder is followed by the end of the template or by
  literal text that starts with a character of no placeholder.
\<close>

fun starts_safely :: "segment list \<Rightarrow> bool" where
  "starts_safely [] = True"
| "starts_safely (Lit s # segs) = (if s = [] then segs = [] else hd s \<notin> inner_chars)"
| "starts_safely (Var n # segs) = False"

fun shape_ok :: "segment list \<Rightarrow> bool" where
  "shape_ok [] = True"
| "shape_ok (Lit s # segs) = (CHR ''{'' \<notin> set s \<and> shape_ok segs)"
| "shape_ok (Var n # segs) = (n \<in> set placeholder_names \<and> starts_safely segs \<and> shape_ok segs)"

definition template_ok :: "string \<Rightarrow> bool" where
  "template_ok t = shape_ok (segments t)"

text \<open>
  A text is free of placeholders when none of the five placeholders occurs in it.
\<close>

definition placeholder_free :: "string \<Rightarrow> bool" where
  "placeholder_free v = list_all (\<lambda>m. \<not> sublist (placeholder m) v) placeholder_names"

text \<open>
  A session with a goal, one completed task and a current task, for concrete runs.
\<close>

definition busy_session :: PlanningSession where
  "busy_session =
     set_current_task ''grasp the cup''
       (add_completed_task ''2026-01-01T12:00:00'' ''locate the cup''
          (set_goal ''stack the blocks'' PlanningSession_init))"

text \<open>A generator whose every draw is 0: \<^verbatim>\<open>random.choice\<close> then takes the first element.\<close>

definition zero_draws :: rng where
  "zero_draws = ((\<lambda>i. 0), 0)"

subsection \<open>Auxiliary notions for the pipeline\<close>

text \<open>\<^verbatim>\<open>PLANNING_TEMPLATES[query_type]["templates"]\<close> for a known query type.\<close>

definition templates_of :: "string \<Rightarrow> string list" where
  "templates_of query_type =
     (case PLANNING_TEMPLATES query_type of None \<Rightarrow> [] | Some info \<Rightarrow> templates info)"

text \<open>
  The executor as \<^verbatim>\<open>__init__\<close> leaves it: a fresh session and no run directory. The
  generator and the file system are those of the process.
\<close>

definition executor_init ::
  "'c \<Rightarrow> rng \<Rightarrow> (string \<rightharpoonup> file_content) \<Rightarrow> string set \<Rightarrow> 'c executor" where
  "executor_init c r fs ds =
     \<lparr>chat = c, session = PlanningSession_init, executor_run_dir = None,
      random_state = r, files = fs, directories = ds\<rparr>"

text \<open>
  Two chat objects without state for concrete runs. The first fails on every call: it
  returns a dictionary with the key \<^verbatim>\<open>error\<close> only, which is how the callers in
  \<^verbatim>\<open>interactive_chat.py\<close> and \<^verbatim>\<open>test_multi_turn.py\<close> recognise a failed call. The second
  answers every prompt with the same text.
\<close>

definition ask_fail :: "unit ask_fn" where
  "ask_fail c prompt task enable_thinking = ([''error'' \<mapsto> ''inference failed''], c)"

definition ask_fixed :: "unit ask_fn" where
  "ask_fixed c prompt task enable_thinking =
     ([''answer'' \<mapsto> ''1. pick up the cup'', ''thinking'' \<mapsto> []], c)"

text \<open>
  A step record records a call: it holds the query type, the prompt that was sent, and
  the answer and the thinking of the result, each the empty text where the result has
  none.
\<close>

fun records_call :: "step \<Rightarrow> string \<times> string \<times> (string \<rightharpoonup> string) \<Rightarrow> bool" where
  "records_call st (query_type, prompt, result) =
     (st ''query_type'' = Some (PStr query_type)
      \<and> st ''prompt'' = Some (PStr prompt)
      \<and> st ''answer'' = Some (PStr (dict_get result ''answer'' []))
      \<and> st ''thinking'' = Some (PStr (dict_get result ''thinking'' [])))"

text \<open>
  An executor for concrete runs: fresh, and then with the image \<^verbatim>\<open>cup.jpg\<close> set at the
  time stamp \<^verbatim>\<open>20260101_120000\<close>. Its chat object has no state.
\<close>

definition fresh_executor :: "unit executor" where
  "fresh_executor = executor_init () zero_draws Map.empty {}"

definition image_executor :: "unit executor" where
  "image_executor = set_image (\<lambda>c path. c) ''cup.jpg'' ''20260101_120000'' fresh_executor"

section \<open>Conversation memory\<close>

text \<open>
  Modelled from the spec: the class \<^verbatim>\<open>ConversationMemory\<close> of \<^verbatim>\<open>conversation_memory.py\<close>,
  which \<^verbatim>\<open>test_multi_turn.py\<close> imports and which is not among the sources. A turn has a
  role, a content, an optional image reference, an optional task tag and a time stamp;
  the memory owns the ordered turns, the current image and the positive bound
  \<^verbatim>\<open>max_turns\<close>.
\<close>

datatype role = User | Assistant

record Turn =
  role :: role
  content :: string
  image_ref :: "string option"
  task_tag :: "string option"
  timestamp :: string

record ConversationMemory =
  turns :: "Turn list"
  current_image :: "string option"
  max_turns :: nat

text \<open>Modelled from the spec: the memory is created empty, with its bound.\<close>

definition ConversationMemory_init :: "nat \<Rightarrow> ConversationMemory" where
  "ConversationMemory_init m = \<lparr>turns = [], current_image = None, max_turns = m\<rparr>"

text \<open>
  Modelled from the spec: the eviction of section 4.1, "if the combined length exceeds
  \<^verbatim>\<open>max_turns\<close>, evict from the front until the bound holds".
\<close>

function evict :: "nat \<Rightarrow> 'a list \<Rightarrow> 'a list" where
  "evict m ts = (if m < length ts then evict m (tl ts) else ts)"
  by pat_completeness auto
termination
  by (relation "measure (\<lambda>(m, ts). length ts)") auto

declare evict.simps [simp del]

text \<open>
  Modelled from the spec: \<^verbatim>\<open>add_user_turn\<close> and \<^verbatim>\<open>add_assistant_turn\<close> (the names that the
  test uses for the appends of section 4.1) append a turn and evict. A user turn that
  brings an image makes it the current image, as the test asserts.
\<close>

definition append_turn :: "Turn \<Rightarrow> ConversationMemory \<Rightarrow> ConversationMemory" where
  "append_turn t mem = mem\<lparr>turns := evict (max_turns mem) (turns mem @ [t])\<rparr>"

definition add_user_turn ::
  "string \<Rightarrow> string option \<Rightarrow> string option \<Rightarrow> string \<Rightarrow> ConversationMemory \<Rightarrow> ConversationMemory" where
  "add_user_turn text img task now mem =
     append_turn \<lparr>role = User, content = text, image_ref = img, task_tag = task, timestamp = now\<rparr>
       (mem\<lparr>current_image := (case img of None \<Rightarrow> current_image mem | Some i \<Rightarrow> Some i)\<rparr>)"

definition add_assistant_turn :: "string \<Rightarrow> string \<Rightarrow> ConversationMemory \<Rightarrow> ConversationMemory" where
  "add_assistant_turn text now mem =
     append_turn \<lparr>role = Assistant, content = text, image_ref = None, task_tag = None, timestamp = now\<rparr> mem"

text \<open>
  Modelled from the spec: a sequence of appends, as commands; \<open>turn_of\<close> is the turn that
  a command appends.
\<close>

datatype memory_op =
  AddUser string "string option" "string option" string
| AddAssistant string string

fun turn_of :: "memory_op \<Rightarrow> Turn" where
  "turn_of (AddUser text img task now) =
     \<lparr>role = User, content = text, image_ref = img, task_tag = task, timestamp = now\<rparr>"
| "turn_of (AddAssistant text now) =
     \<lparr>role = Assistant, content = text, image_ref = None, task_tag = None, timestamp = now\<rparr>"

fun apply_memory_op :: "memory_op \<Rightarrow> ConversationMemory \<Rightarrow> ConversationMemory" where
  "apply_memory_op (AddUser text img task now) mem = add_user_turn text img task now mem"
| "apply_memory_op (AddAssistant text now) mem = add_assistant_turn text now mem"

definition run_memory_ops :: "memory_op list \<Rightarrow> ConversationMemory \<Rightarrow> ConversationMemory" where
  "run_memory_ops ops mem = foldl (\<lambda>m op. apply_memory_op op m) mem ops"

text \<open>
  Modelled from the spec: the loop of the unit test, \<open>n\<close> rounds of a question and its
  answer.
\<close>

fun question_rounds :: "nat \<Rightarrow> memory_op list" where
  "question_rounds 0 = []"
| "question_rounds (Suc n) =
     question_rounds n @
       [AddUser (''Question '' @ str_nat n) None None [], AddAssistant (''Answer '' @ str_nat n) []]"

section \<open>Properties of the planning session\<close>

lemma apply_op_inv: "session_inv s \<Longrightarrow> session_inv (apply_op op s)"
  by (cases op) (simp_all add: session_inv_def set_goal_def add_completed_task_def
      set_current_task_def reset_def)

lemma run_ops_inv: "session_inv s \<Longrightarrow> session_inv (run_ops ops s)"
  unfolding run_ops_def
  by (induction ops arbitrary: s) (simp_all add: apply_op_inv)

lemma init_inv: "session_inv PlanningSession_init"
  by (simp add: session_inv_def PlanningSession_init_def)

text \<open>
  Claim C7. The empty initial session has no more completed tasks than history entries;
  each of \<^verbatim>\<open>set_goal\<close>, \<^verbatim>\<open>add_completed_task\<close>, \<^verbatim>\<open>set_current_task\<close> and \<^verbatim>\<open>reset\<close>
  keeps that bound; hence it holds after every sequence of these operations from the
  initial state.
\<close>

theorem session_invariant:
  "session_inv PlanningSession_init
   \<and> (session_inv s \<longrightarrow>
        session_inv (set_goal g s) \<and> session_inv (add_completed_task now t s)
        \<and> session_inv (set_current_task t s) \<and> session_inv (reset s))
   \<and> session_inv (run_ops ops PlanningSession_init)"
proof -
  have step: "session_inv s \<Longrightarrow> session_inv (apply_op op s)" for op
    by (rule apply_op_inv)
  have "session_inv s \<longrightarrow>
        session_inv (set_goal g s) \<and> session_inv (add_completed_task now t s)
        \<and> session_inv (set_current_task t s) \<and> session_inv (reset s)"
    using step [of "SetGoal g"] step [of "AddCompletedTask now t"]
      step [of "SetCurrentTask t"] step [of Reset] by simp
  then show ?thesis
    using init_inv run_ops_inv [OF init_inv] by blast
qed

theorem session_invariant_witness:
  "session_inv (add_completed_task ''t1'' ''locate the cup'' PlanningSession_init)
   \<and> session_inv (set_goal ''stack the blocks''
        (add_completed_task ''t1'' ''locate the cup'' PlanningSession_init))
   \<and> length (completed_tasks (set_goal ''stack the blocks''
        (add_completed_task ''t1'' ''locate the cup'' PlanningSession_init))) = 0
   \<and> length (task_history (set_goal ''stack the blocks''
        (add_completed_task ''t1'' ''locate the cup'' PlanningSession_init))) = 1"
proof -
  have h: "session_inv (add_completed_task ''t1'' ''locate the cup'' PlanningSession_init)"
    by (simp add: session_inv_def add_completed_task_def PlanningSession_init_def)
  show ?thesis
    using h session_invariant [of "add_completed_task ''t1'' ''locate the cup'' PlanningSession_init"
        "''stack the blocks''" "''t2''" "''x''" "[]"]
    by (simp add: set_goal_def add_completed_task_def PlanningSession_init_def)
qed

text \<open>
  Claim C8. For every session and every goal text, \<^verbatim>\<open>set_goal\<close> stores the goal, empties
  the completed tasks, unsets the current task and leaves the task history as it was, so
  the history is never shorter afterwards.
\<close>

theorem set_goal_frame:
  "goal (set_goal g s) = Some g
   \<and> completed_tasks (set_goal g s) = []
   \<and> current_task (set_goal g s) = None
   \<and> task_history (set_goal g s) = task_history s
   \<and> length (task_history s) \<le> length (task_history (set_goal g s))
   \<and> run_dir (set_goal g s) = run_dir s"
  by (simp add: set_goal_def)

section \<open>Default values of the template variables\<close>

lemma enumerate_map_nth:
  "map (\<lambda>(i, t). f i t) (enumerate n xs) = map (\<lambda>i. f (n + i) (xs ! i)) [0..<length xs]"
proof (induction xs arbitrary: n)
  case Nil
  then show ?case by simp
next
  case (Cons x xs)
  have "map (\<lambda>i. f (n + i) ((x # xs) ! i)) [0..<length (x # xs)]
      = f n x # map (\<lambda>i. f (n + Suc i) (xs ! i)) [0..<length xs]"
    by (simp add: upt_conv_Cons map_Suc_upt [symmetric] del: upt_Suc)
  with Cons show ?case by simp
qed

text \<open>
  Claim C10. A variable that is not passed and for which the session holds nothing takes
  its fixed default: the goal \<^verbatim>\<open>complete the task\<close>, the completed steps \<^verbatim>\<open>none\<close>, the
  last task \<^verbatim>\<open>starting the task\<close>, the task \<^verbatim>\<open>the current task\<close>, the number of steps
  \<^verbatim>\<open>5\<close>. With completed tasks in the session the completed steps are the tasks numbered
  from 1, each as number, hyphen, task, joined by a comma and a space.
\<close>

theorem default_replacements:
  "(kw ''goal'' = None \<and> goal s = None \<longrightarrow>
      map_of (replacements s kw) ''goal'' = Some ''complete the task'')
   \<and> (kw ''completed_steps'' = None \<and> completed_tasks s = [] \<longrightarrow>
      map_of (replacements s kw) ''completed_steps'' = Some ''none'')
   \<and> (kw ''completed_steps'' = None \<and> completed_tasks s \<noteq> [] \<longrightarrow>
      map_of (replacements s kw) ''completed_steps''
        = Some (join '', '' (map (\<lambda>i. str_nat (Suc i) @ ''-'' @ completed_tasks s ! i)
                  [0..<length (completed_tasks s)])))
   \<and> (kw ''last_task'' = None \<and> completed_tasks s = [] \<longrightarrow>
      map_of (replacements s kw) ''last_task'' = Some ''starting the task'')
   \<and> (kw ''task'' = None \<and> current_task s = None \<longrightarrow>
      map_of (replacements s kw) ''task'' = Some ''the current task'')
   \<and> (kw ''num_steps'' = None \<longrightarrow>
      map_of (replacements s kw) ''num_steps'' = Some ''5'')"
proof -
  have steps: "get_completed_steps_str s
      = join '', '' (map (\<lambda>i. str_nat (Suc i) @ ''-'' @ completed_tasks s ! i)
                  [0..<length (completed_tasks s)])"
    if "completed_tasks s \<noteq> []"
    using that enumerate_map_nth [of "\<lambda>i t. str_nat (i + 1) @ ''-'' @ t" 0 "completed_tasks s"]
    by (simp add: get_completed_steps_str_def)
  show ?thesis
    using steps
    by (simp add: replacements_def dict_get_def py_or_def get_completed_steps_str_def
        get_last_task_def)
qed

theorem default_replacements_witness:
  "replacements PlanningSession_init Map.empty
     = [(''goal'', ''complete the task''), (''completed_steps'', ''none''),
        (''last_task'', ''starting the task''), (''task'', ''the current task''),
        (''num_steps'', ''5'')]
   \<and> map_of (replacements
         (add_completed_task ''t2'' ''grasp the cup''
            (add_completed_task ''t1'' ''locate the cup'' PlanningSession_init)) Map.empty)
        ''completed_steps''
       = Some ''1-locate the cup, 2-grasp the cup''"
proof -
  let ?s = "add_completed_task ''t2'' ''grasp the cup''
            (add_completed_task ''t1'' ''locate the cup'' PlanningSession_init)"
  have tasks: "completed_tasks ?s = [''locate the cup'', ''grasp the cup'']"
    by (simp add: add_completed_task_def PlanningSession_init_def)
  have digits: "str_nat (Suc 0) = ''1''" "str_nat (Suc (Suc 0)) = ''2''"
    by (simp_all add: str_nat.simps digit_char_def)
  have upt: "[0..<Suc (Suc 0)] = [0, Suc 0]"
    by (simp add: upt_conv_Cons)
  have a: "map_of (replacements ?s Map.empty) ''completed_steps''
       = Some ''1-locate the cup, 2-grasp the cup''"
    using default_replacements [of Map.empty ?s] tasks digits upt by simp
  have b: "replacements PlanningSession_init Map.empty
     = [(''goal'', ''complete the task''), (''completed_steps'', ''none''),
        (''last_task'', ''starting the task''), (''task'', ''the current task''),
        (''num_steps'', ''5'')]"
    by (simp add: replacements_def dict_get_def py_or_def get_completed_steps_str_def
        get_last_task_def PlanningSession_init_def)
  show ?thesis using a b by simp
qed

section \<open>Template rendering\<close>

lemma all_templates_ok:
  "list_all (\<lambda>(q, info). list_all template_ok (templates info)) PLANNING_TEMPLATES_items"
  by (simp add: PLANNING_TEMPLATES_items_def template_ok_def segments_def placeholder_names_def
      inner_chars_def)

lemma all_templates_nonempty:
  "list_all (\<lambda>(q, info). templates info \<noteq> []) PLANNING_TEMPLATES_items"
  by (simp add: PLANNING_TEMPLATES_items_def)

lemma known_template_ok:
  assumes "PLANNING_TEMPLATES qt = Some info"
  shows "templates info \<noteq> []" and "t \<in> set (templates info) \<Longrightarrow> template_ok t"
proof -
  have "(qt, info) \<in> set PLANNING_TEMPLATES_items"
    using assms by (auto simp: PLANNING_TEMPLATES_def dest: map_of_SomeD)
  then show "templates info \<noteq> []" and "t \<in> set (templates info) \<Longrightarrow> template_ok t"
    using all_templates_ok all_templates_nonempty by (auto simp: list_all_iff)
qed

lemma flatten_scan:
  "flatten (scan_lit acc s) = rev acc @ s"
  "flatten (scan_var acc s) = CHR ''{'' # rev acc @ s"
  by (induction acc s and acc s rule: scan_lit_scan_var.induct) (simp_all add: placeholder_def)

lemma flatten_segments: "flatten (segments t) = t"
  by (simp add: segments_def flatten_scan)

lemma replace_skip:
  "CHR ''{'' \<notin> set v \<Longrightarrow> replace (CHR ''{'' # k) new (v @ s) = v @ replace (CHR ''{'' # k) new s"
  by (induction v) auto

lemma replace_hit:
  "old \<noteq> [] \<Longrightarrow> replace old new (old @ s) = new @ replace old new s"
  by (cases old) simp_all

lemma prefix_same_end:
  "c \<notin> set k \<Longrightarrow> c \<notin> set k' \<Longrightarrow> prefix (k @ [c]) (k' @ c # s) \<Longrightarrow> k = k'"
proof (induction k arbitrary: k')
  case Nil
  then show ?case by (cases k') auto
next
  case (Cons a k)
  then show ?case by (cases k') auto
qed

lemma replace_other:
  assumes "k \<noteq> k'" "CHR ''}'' \<notin> set k" "CHR ''}'' \<notin> set k'" "CHR ''{'' \<notin> set k'"
  shows "replace (placeholder k) new (placeholder k' @ s) = placeholder k' @ replace (placeholder k) new s"
proof -
  have np: "\<not> prefix (k @ ''}'') (k' @ CHR ''}'' # s)"
    using prefix_same_end [of "CHR ''}''" k k' s] assms by auto
  have "replace (placeholder k) new (placeholder k' @ s)
      = CHR ''{'' # replace (CHR ''{'' # k @ ''}'') new ((k' @ ''}'') @ s)"
    using np by (simp add: placeholder_def)
  also have "\<dots> = CHR ''{'' # (k' @ ''}'') @ replace (CHR ''{'' # k @ ''}'') new s"
    using assms by (subst replace_skip) auto
  finally show ?thesis by (simp add: placeholder_def)
qed

lemma name_chars:
  "n \<in> set placeholder_names \<Longrightarrow>
     CHR ''{'' \<notin> set n \<and> CHR ''}'' \<notin> set n \<and> set n \<subseteq> inner_chars"
  by (auto simp: placeholder_names_def inner_chars_def)

text \<open>
  A placeholder that begins inside a value and is followed by a character of no
  placeholder lies inside the value.
\<close>

lemma prefix_placeholder_stays:
  assumes "v \<noteq> []" "prefix (placeholder nm) (v @ rest)"
    and "rest = [] \<or> hd rest \<notin> inner_chars" "set nm \<subseteq> inner_chars"
  shows "prefix (placeholder nm) v"
proof (rule ccontr)
  assume n: "\<not> prefix (placeholder nm) v"
  with assms(2) obtain us where us: "placeholder nm = v @ us" "prefix us rest"
    by (auto simp: prefix_append)
  with n have ne: "us \<noteq> []" by auto
  with us(2) have r: "rest \<noteq> []" and hd: "hd rest = hd us"
    by (auto simp: prefix_def)
  obtain c v' where v: "v = c # v'" using assms(1) by (cases v) auto
  from us(1) v have "nm @ ''}'' = v' @ us" by (simp add: placeholder_def)
  then have "set us \<subseteq> set (nm @ ''}'')" by (metis set_append Un_upper2)
  with ne have "hd us \<in> set nm \<union> {CHR ''}''}" by (cases us) auto
  moreover have "CHR ''}'' \<in> inner_chars" by (simp add: inner_chars_def)
  ultimately have "hd us \<in> inner_chars" using assms(4) by auto
  with assms(3) r hd show False by simp
qed

lemma replace_value:
  assumes "\<not> sublist (placeholder nm) v"
    and "rest = [] \<or> hd rest \<notin> inner_chars" "set nm \<subseteq> inner_chars"
  shows "replace (placeholder nm) new (v @ rest) = v @ replace (placeholder nm) new rest"
  using assms(1)
proof (induction v)
  case Nil
  then show ?case by simp
next
  case (Cons c v)
  have "\<not> prefix (placeholder nm) ((c # v) @ rest)"
  proof
    assume p: "prefix (placeholder nm) ((c # v) @ rest)"
    have "prefix (placeholder nm) (c # v)"
      by (rule prefix_placeholder_stays [OF _ p assms(2,3)]) simp
    then have "sublist (placeholder nm) (c # v)" by (rule prefix_imp_sublist)
    with Cons.prems show False by simp
  qed
  then have np: "\<not> prefix (placeholder nm) (c # v @ rest)" by simp
  have ne: "placeholder nm \<noteq> []" by (simp add: placeholder_def)
  have "\<not> sublist (placeholder nm) v"
    using Cons.prems by (simp add: sublist_Cons_right)
  then have "replace (placeholder nm) new (v @ rest) = v @ replace (placeholder nm) new rest"
    by (rule Cons.IH)
  then show ?case using np ne by simp
qed

lemma starts_safely_substitute:
  "starts_safely segs \<Longrightarrow> substitute reps segs = [] \<or> hd (substitute reps segs) \<notin> inner_chars"
  by (cases segs rule: starts_safely.cases) (auto split: if_splits)

lemma map_of_snoc:
  "map_of (reps @ [(k, v)]) n =
     (case map_of reps n of Some x \<Rightarrow> Some x | None \<Rightarrow> if n = k then Some v else None)"
  by (simp add: map_add_def split: option.splits)

text \<open>
  One pass of the loop. Where the values put in so far contain no \<open>{k}\<close>, replacing
  \<open>{k}\<close> in the text reached so far is the substitution extended by \<open>k\<close>.
\<close>

lemma replace_pass:
  assumes "shape_ok segs" "k \<in> set placeholder_names"
    and "\<And>n v'. Var n \<in> set segs \<Longrightarrow> map_of reps n = Some v' \<Longrightarrow> \<not> sublist (placeholder k) v'"
  shows "replace (placeholder k) v (substitute reps segs) = substitute (reps @ [(k, v)]) segs"
  using assms(1,3)
proof (induction segs)
  case Nil
  then show ?case by (simp add: placeholder_def)
next
  case (Cons sg segs)
  note kc = name_chars [OF assms(2)]
  show ?case
  proof (cases sg)
    case (Lit s)
    with Cons.prems have ok: "shape_ok segs" and s: "CHR ''{'' \<notin> set s" by simp_all
    have "replace (placeholder k) v (substitute reps segs) = substitute (reps @ [(k, v)]) segs"
    proof (rule Cons.IH [OF ok])
      fix m v' assume "Var m \<in> set segs" "map_of reps m = Some v'"
      then show "\<not> sublist (placeholder k) v'" using Cons.prems(2) [of m v'] by simp
    qed
    then show ?thesis
      using Lit replace_skip [OF s, of "k @ ''}''" v "substitute reps segs"]
      by (simp add: placeholder_def)
  next
    case (Var n)
    with Cons.prems have n: "n \<in> set placeholder_names" and safe: "starts_safely segs"
      and ok: "shape_ok segs" by simp_all
    have IH: "replace (placeholder k) v (substitute reps segs) = substitute (reps @ [(k, v)]) segs"
    proof (rule Cons.IH [OF ok])
      fix m v' assume "Var m \<in> set segs" "map_of reps m = Some v'"
      then show "\<not> sublist (placeholder k) v'" using Cons.prems(2) [of m v'] by simp
    qed
    show ?thesis
    proof (cases "map_of reps n")
      case (Some v')
      have "\<not> sublist (placeholder k) v'" using Cons.prems(2) [of n v'] Var Some by simp
      then have "replace (placeholder k) v (v' @ substitute reps segs)
          = v' @ replace (placeholder k) v (substitute reps segs)"
        using replace_value [of k v' "substitute reps segs" v]
          starts_safely_substitute [OF safe, of reps] kc by blast
      then show ?thesis using Var Some IH by (simp add: map_add_def)
    next
      case None
      show ?thesis
      proof (cases "n = k")
        case True
        then show ?thesis
          using Var None IH replace_hit [of "placeholder k" v "substitute reps segs"]
          by (simp add: map_add_def placeholder_def)
      next
        case False
        then show ?thesis
          using Var None IH replace_other [of k n v "substitute reps segs"] kc name_chars [OF n]
          by (simp add: map_add_def)
      qed
    qed
  qed
qed

lemma substitute_Nil: "substitute [] segs = flatten segs"
  by (induction segs rule: flatten.induct) simp_all

lemma map_of_append_Some:
  "map_of reps1 n = Some v \<Longrightarrow> map_of (reps1 @ reps2) n = Some v"
  by (simp add: map_add_def)

text \<open>
  The whole loop. On a well-formed template the replacements, one key after the other,
  give the substitution of all placeholders at once, as long as the values put in for
  the placeholders of the template are free of placeholders.
\<close>

lemma fill_template_substitute:
  assumes "shape_ok segs" "set (map fst reps2) \<subseteq> set placeholder_names"
    and "\<And>n v'. Var n \<in> set segs \<Longrightarrow> map_of (reps1 @ reps2) n = Some v' \<Longrightarrow> placeholder_free v'"
  shows "fill_template reps2 (substitute reps1 segs) = substitute (reps1 @ reps2) segs"
  using assms(2,3)
proof (induction reps2 arbitrary: reps1)
  case Nil
  then show ?case by (simp add: fill_template_def)
next
  case (Cons kv reps2)
  obtain k v where kv: "kv = (k, v)" by (cases kv)
  from Cons.prems(1) kv have k: "k \<in> set placeholder_names"
    and ks: "set (map fst reps2) \<subseteq> set placeholder_names" by simp_all
  have free: "\<not> sublist (placeholder k) v'"
    if "Var n \<in> set segs" "map_of reps1 n = Some v'" for n v'
  proof -
    have "placeholder_free v'"
      using Cons.prems(2) [of n v'] that map_of_append_Some [of reps1 n v' "kv # reps2"] by simp
    then show ?thesis using k by (simp add: placeholder_free_def list_all_iff)
  qed
  have "fill_template (kv # reps2) (substitute reps1 segs)
      = fill_template reps2 (replace (placeholder k) v (substitute reps1 segs))"
    by (simp add: fill_template_def kv placeholder_def)
  also have "\<dots> = fill_template reps2 (substitute (reps1 @ [(k, v)]) segs)"
    using replace_pass [OF assms(1) k free] by simp
  also have "\<dots> = substitute ((reps1 @ [(k, v)]) @ reps2) segs"
    using Cons.IH [OF ks, of "reps1 @ [(k, v)]"] Cons.prems(2) by (simp add: kv)
  finally show ?case by (simp add: kv)
qed

lemma replace_length_le: "length (replace old [] s) \<le> length s"
proof (induction s rule: length_induct)
  case (1 s)
  show ?case
  proof (cases s)
    case Nil
    then show ?thesis by simp
  next
    case (Cons c cs)
    have "length cs < length s" using Cons by simp
    then have a: "length (replace old [] cs) \<le> length cs"
      using "1" by blast
    have "length (drop (length old - 1) cs) < length s" using Cons by simp
    then have "length (replace old [] (drop (length old - 1) cs)) \<le> length (drop (length old - 1) cs)"
      using "1" by blast
    then have b: "length (replace old [] (drop (length old - 1) cs)) \<le> length cs"
      by simp
    show ?thesis using a b Cons by auto
  qed
qed

lemma replace_shrinks:
  "old \<noteq> [] \<Longrightarrow> sublist old s \<Longrightarrow> length (replace old [] s) < length s"
proof (induction s)
  case Nil
  then show ?case by simp
next
  case (Cons c cs)
  show ?case
  proof (cases "prefix old (c # cs)")
    case True
    have "length (replace old [] (drop (length old - 1) cs)) \<le> length (drop (length old - 1) cs)"
      by (rule replace_length_le)
    then have "length (replace old [] (drop (length old - 1) cs)) \<le> length cs"
      by simp
    then show ?thesis using True Cons.prems(1) by simp
  next
    case False
    then have "sublist old cs" using Cons.prems(2) by (simp add: sublist_Cons_right)
    then show ?thesis using Cons.IH Cons.prems(1) False by simp
  qed
qed

lemma substitute_cong:
  "(\<And>n. Var n \<in> set segs \<Longrightarrow> map_of r1 n = map_of r2 n) \<Longrightarrow>
     substitute r1 segs = substitute r2 segs"
proof (induction segs)
  case Nil
  then show ?case by simp
next
  case (Cons sg segs)
  then show ?case by (cases sg) simp_all
qed

text \<open>
  After the substitution of all placeholders none of the five is left, as long as the
  values put in are free of placeholders.
\<close>

lemma substitute_placeholder_free:
  assumes "shape_ok segs"
    and "\<And>n. Var n \<in> set segs \<Longrightarrow> \<exists>v'. map_of reps n = Some v' \<and> placeholder_free v'"
  shows "placeholder_free (substitute reps segs)"
proof -
  have "\<not> sublist (placeholder m) (substitute reps segs)" if m: "m \<in> set placeholder_names" for m
  proof
    assume sub: "sublist (placeholder m) (substitute reps segs)"
    have free: "\<not> sublist (placeholder m) v'"
      if "Var n \<in> set segs" "map_of reps n = Some v'" for n v'
      using assms(2) [OF that(1)] that(2) m by (auto simp: placeholder_free_def list_all_iff)
    have "replace (placeholder m) [] (substitute reps segs) = substitute (reps @ [(m, [])]) segs"
      by (rule replace_pass [OF assms(1) m free])
    also have "\<dots> = substitute reps segs"
    proof (rule substitute_cong)
      fix n assume "Var n \<in> set segs"
      then show "map_of (reps @ [(m, [])]) n = map_of reps n"
        using assms(2) [of n] by (auto simp: map_add_def)
    qed
    finally have "replace (placeholder m) [] (substitute reps segs) = substitute reps segs" .
    moreover have "length (replace (placeholder m) [] (substitute reps segs))
        < length (substitute reps segs)"
      using replace_shrinks [OF _ sub] by (simp add: placeholder_def)
    ultimately show False by simp
  qed
  then show ?thesis by (simp add: placeholder_free_def list_all_iff)
qed

lemma Var_in_flatten: "Var n \<in> set segs \<Longrightarrow> sublist (placeholder n) (flatten segs)"
proof (induction segs rule: flatten.induct)
  case 1
  then show ?case by simp
next
  case (2 s segs)
  then have "sublist (placeholder n) (flatten segs)" by simp
  then show ?case by (auto simp: sublist_append)
next
  case (3 m segs)
  show ?case
  proof (cases "m = n")
    case True
    then show ?thesis by simp
  next
    case False
    with 3 have "sublist (placeholder n) (flatten segs)" by simp
    then show ?thesis by (auto simp: sublist_append)
  qed
qed

lemma replacements_keys: "map fst (replacements s kw) = placeholder_names"
  by (simp add: replacements_def placeholder_names_def)

lemma shape_ok_Var: "shape_ok segs \<Longrightarrow> Var n \<in> set segs \<Longrightarrow> n \<in> set placeholder_names"
  by (induction segs rule: shape_ok.induct) auto

lemma fill_template_known:
  assumes ok: "template_ok t"
    and vals: "\<And>n v. sublist (placeholder n) t \<Longrightarrow> map_of (replacements s kw) n = Some v
                 \<Longrightarrow> placeholder_free v"
  shows "fill_template (replacements s kw) t = substitute (replacements s kw) (segments t)"
    and "placeholder_free (substitute (replacements s kw) (segments t))"
proof -
  have shape: "shape_ok (segments t)" using ok by (simp add: template_ok_def)
  have occ: "sublist (placeholder n) t" if "Var n \<in> set (segments t)" for n
    using Var_in_flatten [OF that] by (simp add: flatten_segments)
  have keys: "set (map fst (replacements s kw)) \<subseteq> set placeholder_names"
    by (simp add: replacements_keys)
  have free: "placeholder_free v'"
    if "Var n \<in> set (segments t)" "map_of ([] @ replacements s kw) n = Some v'" for n v'
    using vals [OF occ [OF that(1)]] that(2) by simp
  have "fill_template (replacements s kw) (substitute [] (segments t))
      = substitute ([] @ replacements s kw) (segments t)"
    by (rule fill_template_substitute [OF shape keys free])
  then show "fill_template (replacements s kw) t = substitute (replacements s kw) (segments t)"
    by (simp add: substitute_Nil flatten_segments)
  have "\<exists>v'. map_of (replacements s kw) n = Some v' \<and> placeholder_free v'"
    if v: "Var n \<in> set (segments t)" for n
  proof -
    have "n \<in> set (map fst (replacements s kw))"
      using shape_ok_Var [OF shape v] by (simp add: replacements_keys)
    then obtain v' where "map_of (replacements s kw) n = Some v'"
      by (metis map_of_eq_None_iff not_Some_eq set_map)
    then show ?thesis using vals [OF occ [OF v]] by blast
  qed
  then show "placeholder_free (substitute (replacements s kw) (segments t))"
    by (rule substitute_placeholder_free [OF shape])
qed

lemma replacements_fallback:
  "replacements s kw =
     [(''goal'', case kw ''goal'' of Some v \<Rightarrow> v
         | None \<Rightarrow> (case goal s of None \<Rightarrow> ''complete the task''
             | Some g \<Rightarrow> if g = [] then ''complete the task'' else g)),
      (''completed_steps'', case kw ''completed_steps'' of Some v \<Rightarrow> v
         | None \<Rightarrow> if completed_tasks s = [] then ''none''
             else join '', '' (map (\<lambda>i. str_nat (Suc i) @ ''-'' @ completed_tasks s ! i)
                    [0..<length (completed_tasks s)])),
      (''last_task'', case kw ''last_task'' of Some v \<Rightarrow> v
         | None \<Rightarrow> if completed_tasks s = [] then ''starting the task''
             else last (completed_tasks s)),
      (''task'', case kw ''task'' of Some v \<Rightarrow> v
         | None \<Rightarrow> (case current_task s of None \<Rightarrow> ''the current task''
             | Some c \<Rightarrow> if c = [] then ''the current task'' else c)),
      (''num_steps'', case kw ''num_steps'' of Some v \<Rightarrow> v | None \<Rightarrow> ''5'')]"
proof -
  have "get_completed_steps_str s
      = (if completed_tasks s = [] then ''none''
         else join '', '' (map (\<lambda>i. str_nat (Suc i) @ ''-'' @ completed_tasks s ! i)
                [0..<length (completed_tasks s)]))"
    using enumerate_map_nth [of "\<lambda>i t. str_nat (i + 1) @ ''-'' @ t" 0 "completed_tasks s"]
    by (simp add: get_completed_steps_str_def)
  then show ?thesis
    by (simp add: replacements_def dict_get_def py_or_def get_last_task_def
        split: option.splits)
qed

text \<open>
  Claim C3, as amended. For a known query type \<^verbatim>\<open>generate_prompt\<close> takes the template
  that the random generator selects and returns a prompt; it never raises. The value of
  each of the five variables is the keyword argument where one is passed, else what the
  session holds (its goal, its completed tasks as numbered steps, its last completed
  task, its current task), else the fixed default. Provided that the values of the
  variables whose placeholders occur in the template contain none of the five
  placeholders, the prompt is the template with every placeholder replaced by the value
  of its variable, and none of the five placeholders occurs in it. For an unknown query
  type it returns the \<^verbatim>\<open>custom_prompt\<close> argument, or \<^verbatim>\<open>Describe what you see.\<close> without
  one.
\<close>

theorem generate_prompt_fills_placeholders:
  "(\<forall>info. PLANNING_TEMPLATES qt = Some info \<longrightarrow>
      (\<exists>t \<in> set (templates info). \<exists>p.
         t = templates info ! (fst r (snd r) mod length (templates info))
         \<and> generate_prompt r s qt kw = Inr (p, (fst r, Suc (snd r)))
         \<and> ((\<forall>n v. sublist (placeholder n) t \<and> map_of (replacements s kw) n = Some v
                 \<longrightarrow> placeholder_free v)
              \<longrightarrow> p = substitute (replacements s kw) (segments t) \<and> placeholder_free p)))
   \<and> (PLANNING_TEMPLATES qt = None \<longrightarrow>
        generate_prompt r s qt kw
          = Inr (dict_get kw ''custom_prompt'' ''Describe what you see.'', r))
   \<and> replacements s kw =
       [(''goal'', case kw ''goal'' of Some v \<Rightarrow> v
           | None \<Rightarrow> (case goal s of None \<Rightarrow> ''complete the task''
               | Some g \<Rightarrow> if g = [] then ''complete the task'' else g)),
        (''completed_steps'', case kw ''completed_steps'' of Some v \<Rightarrow> v
           | None \<Rightarrow> if completed_tasks s = [] then ''none''
               else join '', '' (map (\<lambda>i. str_nat (Suc i) @ ''-'' @ completed_tasks s ! i)
                      [0..<length (completed_tasks s)])),
        (''last_task'', case kw ''last_task'' of Some v \<Rightarrow> v
           | None \<Rightarrow> if completed_tasks s = [] then ''starting the task''
               else last (completed_tasks s)),
        (''task'', case kw ''task'' of Some v \<Rightarrow> v
           | None \<Rightarrow> (case current_task s of None \<Rightarrow> ''the current task''
               | Some c \<Rightarrow> if c = [] then ''the current task'' else c)),
        (''num_steps'', case kw ''num_steps'' of Some v \<Rightarrow> v | None \<Rightarrow> ''5'')]"
proof (intro conjI allI impI)
  fix info
  assume a: "PLANNING_TEMPLATES qt = Some info"
  define t where "t = templates info ! (fst r (snd r) mod length (templates info))"
  define p where "p = fill_template (replacements s kw) t"
  have ne: "templates info \<noteq> []" using known_template_ok(1) a by blast
  then have mem: "t \<in> set (templates info)" by (simp add: t_def)
  then have ok: "template_ok t" using known_template_ok(2) a by blast
  have gen: "generate_prompt r s qt kw = Inr (p, (fst r, Suc (snd r)))"
    using a ne by (simp add: generate_prompt_def random_choice_def t_def p_def)
  have filled: "p = substitute (replacements s kw) (segments t) \<and> placeholder_free p"
    if "\<forall>n v. sublist (placeholder n) t \<and> map_of (replacements s kw) n = Some v
                 \<longrightarrow> placeholder_free v"
    using fill_template_known [OF ok, of s kw] that by (simp add: p_def)
  show "\<exists>t \<in> set (templates info). \<exists>p.
         t = templates info ! (fst r (snd r) mod length (templates info))
         \<and> generate_prompt r s qt kw = Inr (p, (fst r, Suc (snd r)))
         \<and> ((\<forall>n v. sublist (placeholder n) t \<and> map_of (replacements s kw) n = Some v
                 \<longrightarrow> placeholder_free v)
              \<longrightarrow> p = substitute (replacements s kw) (segments t) \<and> placeholder_free p)"
    using mem gen filled t_def by blast
next
  assume "PLANNING_TEMPLATES qt = None"
  then show "generate_prompt r s qt kw
          = Inr (dict_get kw ''custom_prompt'' ''Describe what you see.'', r)"
    by (simp add: generate_prompt_def)
next
  show "replacements s kw =
       [(''goal'', case kw ''goal'' of Some v \<Rightarrow> v
           | None \<Rightarrow> (case goal s of None \<Rightarrow> ''complete the task''
               | Some g \<Rightarrow> if g = [] then ''complete the task'' else g)),
        (''completed_steps'', case kw ''completed_steps'' of Some v \<Rightarrow> v
           | None \<Rightarrow> if completed_tasks s = [] then ''none''
               else join '', '' (map (\<lambda>i. str_nat (Suc i) @ ''-'' @ completed_tasks s ! i)
                      [0..<length (completed_tasks s)])),
        (''last_task'', case kw ''last_task'' of Some v \<Rightarrow> v
           | None \<Rightarrow> if completed_tasks s = [] then ''starting the task''
               else last (completed_tasks s)),
        (''task'', case kw ''task'' of Some v \<Rightarrow> v
           | None \<Rightarrow> (case current_task s of None \<Rightarrow> ''the current task''
               | Some c \<Rightarrow> if c = [] then ''the current task'' else c)),
        (''num_steps'', case kw ''num_steps'' of Some v \<Rightarrow> v | None \<Rightarrow> ''5'')]"
    by (rule replacements_fallback)
qed

lemma planning_lookup:
  "PLANNING_TEMPLATES ''planning'' = Some \<lparr>description = ''Determine the next step to achieve a long-horizon goal'',
      templates = [
        ''The objective is {goal}, what should be the next step to move forward?'',
        ''In pursuit of achieving {goal}, what's the next action to take?'',
        ''To reach the goal of {goal}, which task should be prioritized next?'',
        ''Given the goal of {goal}, what is the most logical next move?'',
        ''With the aim of {goal}, what should you focus on next?'']\<rparr>"
  by (simp add: PLANNING_TEMPLATES_def PLANNING_TEMPLATES_items_def)

lemma planning_with_context_lookup:
  "PLANNING_TEMPLATES ''planning_with_context'' = Some \<lparr>description = ''Determine next step given completed tasks'',
      templates = [
        ''So far, you've completed these steps: {completed_steps}. What's the next move to achieve the goal of {goal}?'',
        ''With the following steps completed: {completed_steps}. What is the next logical step toward {goal}?'',
        ''Considering the goal of {goal}, and having done {completed_steps}, what should you do next?'',
        ''You are working towards {goal}. After completing steps {completed_steps}, what's the next immediate task?'',
        ''Given your progress so far ({completed_steps}), what's the next step toward achieving {goal}?'']\<rparr>"
  by (simp add: PLANNING_TEMPLATES_def PLANNING_TEMPLATES_items_def)

lemma busy_session_fields:
  "goal busy_session = Some ''stack the blocks''"
  "completed_tasks busy_session = [''locate the cup'']"
  "current_task busy_session = Some ''grasp the cup''"
  by (simp_all add: busy_session_def set_current_task_def add_completed_task_def set_goal_def
      PlanningSession_init_def)

lemma busy_replacements:
  "replacements busy_session Map.empty
     = [(''goal'', ''stack the blocks''), (''completed_steps'', ''1-locate the cup''),
        (''last_task'', ''locate the cup''), (''task'', ''grasp the cup''),
        (''num_steps'', ''5'')]"
  by (simp add: replacements_def dict_get_def py_or_def get_completed_steps_str_def
      get_last_task_def busy_session_fields str_nat.simps [of "Suc 0"] digit_char_def)

lemma braces_replacements:
  "replacements PlanningSession_init [''goal'' \<mapsto> ''sort the {red, blue} blocks'']
     = [(''goal'', ''sort the {red, blue} blocks''), (''completed_steps'', ''none''),
        (''last_task'', ''starting the task''), (''task'', ''the current task''),
        (''num_steps'', ''5'')]"
  by (simp add: replacements_def dict_get_def py_or_def get_completed_steps_str_def
      get_last_task_def PlanningSession_init_def)

lemma concrete_values_free:
  "placeholder_free ''stack the blocks''" "placeholder_free ''1-locate the cup''"
  "placeholder_free ''locate the cup''" "placeholder_free ''grasp the cup''"
  "placeholder_free ''5''" "placeholder_free ''sort the {red, blue} blocks''"
  "placeholder_free ''none''" "placeholder_free ''starting the task''"
  "placeholder_free ''the current task''"
  by (simp_all add: placeholder_free_def placeholder_names_def placeholder_def
      sublist_Cons_right)

theorem generate_prompt_fills_placeholders_witness:
  "generate_prompt zero_draws busy_session ''planning_with_context'' Map.empty
       = Inr (''So far, you've completed these steps: 1-locate the cup. What's the next move to achieve the goal of stack the blocks?'',
              (fst zero_draws, 1))
   \<and> placeholder_free ''So far, you've completed these steps: 1-locate the cup. What's the next move to achieve the goal of stack the blocks?''
   \<and> generate_prompt zero_draws PlanningSession_init ''planning''
         [''goal'' \<mapsto> ''sort the {red, blue} blocks'']
       = Inr (''The objective is sort the {red, blue} blocks, what should be the next step to move forward?'',
              (fst zero_draws, 1))
   \<and> PLANNING_TEMPLATES ''describe'' = None
   \<and> generate_prompt zero_draws PlanningSession_init ''describe'' Map.empty
       = Inr (''Describe what you see.'', zero_draws)"
proof -
  have h1: "\<forall>n v. sublist (placeholder n)
        ''So far, you've completed these steps: {completed_steps}. What's the next move to achieve the goal of {goal}?''
      \<and> map_of (replacements busy_session Map.empty) n = Some v \<longrightarrow> placeholder_free v"
    using concrete_values_free by (auto simp: busy_replacements split: if_splits)
  have h2: "\<forall>n v. sublist (placeholder n)
        ''The objective is {goal}, what should be the next step to move forward?''
      \<and> map_of (replacements PlanningSession_init [''goal'' \<mapsto> ''sort the {red, blue} blocks'']) n
          = Some v \<longrightarrow> placeholder_free v"
    using concrete_values_free by (auto simp: braces_replacements split: if_splits)
  have unknown: "PLANNING_TEMPLATES ''describe'' = None"
    by (simp add: PLANNING_TEMPLATES_def PLANNING_TEMPLATES_items_def)
  have seg1: "segments ''So far, you've completed these steps: {completed_steps}. What's the next move to achieve the goal of {goal}?''
      = [Lit ''So far, you've completed these steps: '', Var ''completed_steps'',
         Lit ''. What's the next move to achieve the goal of '', Var ''goal'', Lit ''?'']"
    by (simp add: segments_def)
  have seg2: "segments ''The objective is {goal}, what should be the next step to move forward?''
      = [Lit ''The objective is '', Var ''goal'',
         Lit '', what should be the next step to move forward?'']"
    by (simp add: segments_def)
  have a: "generate_prompt zero_draws busy_session ''planning_with_context'' Map.empty
       = Inr (''So far, you've completed these steps: 1-locate the cup. What's the next move to achieve the goal of stack the blocks?'',
              (fst zero_draws, 1))
     \<and> placeholder_free ''So far, you've completed these steps: 1-locate the cup. What's the next move to achieve the goal of stack the blocks?''"
    using generate_prompt_fills_placeholders
      [of "''planning_with_context''" zero_draws busy_session Map.empty] h1
    by (simp add: planning_with_context_lookup zero_draws_def seg1 busy_replacements)
  have b: "generate_prompt zero_draws PlanningSession_init ''planning''
         [''goal'' \<mapsto> ''sort the {red, blue} blocks'']
       = Inr (''The objective is sort the {red, blue} blocks, what should be the next step to move forward?'',
              (fst zero_draws, 1))"
    using generate_prompt_fills_placeholders
      [of "''planning''" zero_draws PlanningSession_init
          "[''goal'' \<mapsto> ''sort the {red, blue} blocks'']"] h2
    by (simp add: planning_lookup zero_draws_def seg2 braces_replacements)
  have c: "generate_prompt zero_draws PlanningSession_init ''describe'' Map.empty
       = Inr (''Describe what you see.'', zero_draws)"
    using generate_prompt_fills_placeholders
      [of "''describe''" zero_draws PlanningSession_init Map.empty] unknown
    by (simp add: dict_get_def)
  show ?thesis using a b unknown c by simp
qed

text \<open>
  Against claim C3 as stated: with the goal \<^verbatim>\<open>{goal}\<close> the prompt of a known query type
  still contains the placeholder \<^verbatim>\<open>{goal}\<close>.
\<close>

theorem generate_prompt_placeholder_counterexample:
  "generate_prompt zero_draws PlanningSession_init ''planning'' [''goal'' \<mapsto> ''{goal}'']
     = Inr (''The objective is {goal}, what should be the next step to move forward?'',
            (fst zero_draws, 1))
   \<and> sublist (placeholder ''goal'')
        ''The objective is {goal}, what should be the next step to move forward?''"
proof -
  have reps: "replacements PlanningSession_init [''goal'' \<mapsto> ''{goal}'']
      = [(''goal'', ''{goal}''), (''completed_steps'', ''none''),
         (''last_task'', ''starting the task''), (''task'', ''the current task''),
         (''num_steps'', ''5'')]"
    by (simp add: replacements_def dict_get_def py_or_def get_completed_steps_str_def
        get_last_task_def PlanningSession_init_def)
  have fill: "fill_template [(''goal'', ''{goal}''), (''completed_steps'', ''none''),
         (''last_task'', ''starting the task''), (''task'', ''the current task''),
         (''num_steps'', ''5'')]
        ''The objective is {goal}, what should be the next step to move forward?''
      = ''The objective is {goal}, what should be the next step to move forward?''"
    by (simp add: fill_template_def)
  have sub: "sublist (placeholder ''goal'')
        (''The objective is '' @ placeholder ''goal'' @ '', what should be the next step to move forward?'')"
    by (rule sublist_appendI)
  show ?thesis
    using sub
    by (simp add: generate_prompt_def planning_lookup random_choice_def zero_draws_def reps fill
        placeholder_def)
qed

section \<open>Task extraction\<close>

lemma extract_from_lines_find:
  "extract_from_lines ls =
     (case find (\<lambda>l. 10 < length l) (map strip ls) of
        None \<Rightarrow> None
      | Some l \<Rightarrow> Some (take 100 (remove_prefixes task_prefixes l)))"
  by (induction ls) (auto simp: Let_def)

lemma strip_last_not_space: "strip l \<noteq> [] \<Longrightarrow> \<not> isspace (last (strip l))"
proof -
  assume ne: "strip l \<noteq> []"
  let ?r = "dropWhile isspace (rev (dropWhile isspace l))"
  from ne have r: "?r \<noteq> []" by (simp add: strip_def)
  then have "\<not> isspace (hd ?r)" by (rule hd_dropWhile)
  moreover have "last (strip l) = hd ?r"
    using r by (simp add: strip_def last_rev)
  ultimately show ?thesis by simp
qed

lemma remove_prefix_keeps_last:
  assumes "l \<noteq> []" "\<not> isspace (last l)" "p \<noteq> []" "isspace (last p)"
  shows "(if prefix p l then drop (length p) l else l) \<noteq> []
       \<and> last (if prefix p l then drop (length p) l else l) = last l"
proof (cases "prefix p l")
  case False
  then show ?thesis using assms by simp
next
  case True
  then obtain r where l: "l = p @ r" by (auto simp: prefix_def)
  have "r \<noteq> []" using assms l by auto
  then show ?thesis using True l by simp
qed

lemma remove_prefixes_nonempty:
  assumes "list_all (\<lambda>p. p \<noteq> [] \<and> isspace (last p)) ps" "l \<noteq> []" "\<not> isspace (last l)"
  shows "remove_prefixes ps l \<noteq> []"
proof -
  have "foldl (\<lambda>l p. if prefix p l then drop (length p) l else l) l ps \<noteq> []
      \<and> last (foldl (\<lambda>l p. if prefix p l then drop (length p) l else l) l ps) = last l"
    using assms
  proof (induction ps arbitrary: l)
    case Nil
    then show ?case by simp
  next
    case (Cons p ps)
    let ?l' = "if prefix p l then drop (length p) l else l"
    have step: "?l' \<noteq> [] \<and> last ?l' = last l"
      using remove_prefix_keeps_last [of l p] Cons.prems by simp
    then have "foldl (\<lambda>l p. if prefix p l then drop (length p) l else l) ?l' ps \<noteq> []
      \<and> last (foldl (\<lambda>l p. if prefix p l then drop (length p) l else l) ?l' ps) = last ?l'"
      using Cons.IH [of ?l'] Cons.prems by simp
    with step show ?case by simp
  qed
  then show ?thesis by (simp add: remove_prefixes_def)
qed

lemma task_prefixes_end_in_space:
  "list_all (\<lambda>p. p \<noteq> [] \<and> isspace (last p)) task_prefixes"
  by (simp add: task_prefixes_def isspace_def)

text \<open>An extracted task is never the empty text, and has at most 100 characters.\<close>

lemma extract_task_nonempty:
  assumes "extract_task_from_answer a = Some t"
  shows "t \<noteq> []" and "length t \<le> 100"
proof -
  from assms obtain l where f: "find (\<lambda>l. 10 < length l) (map strip (split_chr CHR 0x0A a)) = Some l"
    and t: "t = take 100 (remove_prefixes task_prefixes l)"
    by (auto simp: extract_task_from_answer_def extract_from_lines_find split: option.splits)
  from f have "10 < length l" and "l \<in> set (map strip (split_chr CHR 0x0A a))"
    by (auto simp: find_Some_iff)
  then obtain l0 where l: "l = strip l0" and ne: "strip l0 \<noteq> []" by fastforce
  have "remove_prefixes task_prefixes l \<noteq> []"
    using remove_prefixes_nonempty [OF task_prefixes_end_in_space, of l]
      strip_last_not_space [OF ne] ne l by simp
  then show "t \<noteq> []" by (simp add: t)
  show "length t \<le> 100" by (simp add: t)
qed

text \<open>
  Claim C2, as amended. The answer is split at line feeds and every line is stripped of
  the whitespace around it. The first stripped line of more than 10 characters gives the
  task: each of the five prefixes, in their order, is cut off where the line then starts
  with it, and the rest is cut to 100 characters. Without such a line there is no task
  and nothing is raised. \<^verbatim>\<open>1. pick up the cup\<close> followed by a second line gives
  \<^verbatim>\<open>pick up the cup\<close>, and the empty answer gives no task.
\<close>

theorem extract_task_characterised:
  "extract_task_from_answer answer =
     (case find (\<lambda>l. 10 < length l) (map strip (split_chr CHR 0x0A answer)) of
        None \<Rightarrow> None
      | Some l \<Rightarrow> Some (take 100 (remove_prefixes task_prefixes l)))
   \<and> extract_task_from_answer ''1. pick up the cup\<newline>Some trailing note'' = Some ''pick up the cup''
   \<and> extract_task_from_answer [] = None
   \<and> extract_task_from_answer ''You should First, grasp the red cup'' = Some ''grasp the red cup''
   \<and> extract_task_from_answer ''   \<newline>  - move the arm to the left  '' = Some ''move the arm to the left''"
proof -
  have 1: "extract_task_from_answer ''1. pick up the cup\<newline>Some trailing note'' = Some ''pick up the cup''"
    by (simp add: extract_task_from_answer_def strip_def isspace_def Let_def
        remove_prefixes_def task_prefixes_def)
  have 2: "extract_task_from_answer [] = None"
    by (simp add: extract_task_from_answer_def strip_def)
  have 3: "extract_task_from_answer ''You should First, grasp the red cup'' = Some ''grasp the red cup''"
    by (simp add: extract_task_from_answer_def strip_def isspace_def Let_def
        remove_prefixes_def task_prefixes_def)
  have 4: "extract_task_from_answer ''   \<newline>  - move the arm to the left  '' = Some ''move the arm to the left''"
    by (simp add: extract_task_from_answer_def strip_def isspace_def Let_def
        remove_prefixes_def task_prefixes_def)
  show ?thesis
    using 1 2 3 4 by (simp add: extract_task_from_answer_def extract_from_lines_find)
qed

text \<open>
  Against claim C2 as stated, which takes the lines as they are: an indented line keeps
  its indentation and its prefix there, while the code strips the line first.
\<close>

theorem extract_task_counterexample:
  "extract_task_from_answer ''  1. pick up the cup'' = Some ''pick up the cup''
   \<and> extract_task_as_stated ''  1. pick up the cup'' = Some ''  1. pick up the cup''
   \<and> extract_task_from_answer ''   stack it   '' = None
   \<and> extract_task_as_stated ''   stack it   '' = Some ''   stack it   ''"
  by (simp add: extract_task_from_answer_def extract_task_as_stated_def strip_def isspace_def
      Let_def remove_prefixes_def task_prefixes_def)

section \<open>The planning pipeline\<close>

lemma templates_of_known:
  "templates_of ''generative_affordance'' \<noteq> []"
  "templates_of ''planning'' \<noteq> []"
  "templates_of ''affordance_positive'' \<noteq> []"
  "templates_of ''planning_remaining'' \<noteq> []"
  "PLANNING_TEMPLATES ''generative_affordance'' \<noteq> None"
  "PLANNING_TEMPLATES ''planning'' \<noteq> None"
  "PLANNING_TEMPLATES ''affordance_positive'' \<noteq> None"
  "PLANNING_TEMPLATES ''planning_remaining'' \<noteq> None"
  by (simp_all add: templates_of_def PLANNING_TEMPLATES_def PLANNING_TEMPLATES_items_def)

text \<open>
  One call of \<^verbatim>\<open>ask_planning\<close> with a known query type: a template of that type is
  filled, the chat object is asked once, and the step record is built from the result
  whatever it holds. Only the chat object and the random generator change.
\<close>

lemma ask_planning_step:
  assumes "PLANNING_TEMPLATES qt \<noteq> None" "templates_of qt \<noteq> []"
  obtains t result c' ex' where
    "t \<in> set (templates_of qt)"
    "ask (chat ex) (fill_template (replacements (session ex) kw) t) ''general'' et = (result, c')"
    "ask_planning ask qt et kw ex
       = Inr (step_record qt (fill_template (replacements (session ex) kw) t) result, ex')"
    "chat ex' = c'" "session ex' = session ex" "executor_run_dir ex' = executor_run_dir ex"
    "files ex' = files ex" "directories ex' = directories ex"
    "random_state ex' = (fst (random_state ex), Suc (snd (random_state ex)))"
proof -
  from assms(1) obtain info where info: "PLANNING_TEMPLATES qt = Some info" by auto
  with assms(2) have ne: "templates info \<noteq> []" and tof: "templates_of qt = templates info"
    by (simp_all add: templates_of_def)
  define t where "t = templates info ! (fst (random_state ex) (snd (random_state ex)) mod length (templates info))"
  obtain result c' where
    a: "ask (chat ex) (fill_template (replacements (session ex) kw) t) ''general'' et = (result, c')"
    by (cases "ask (chat ex) (fill_template (replacements (session ex) kw) t) ''general'' et")
  define ex' where "ex' = ex\<lparr>chat := c', random_state := (fst (random_state ex), Suc (snd (random_state ex)))\<rparr>"
  have mem: "t \<in> set (templates_of qt)" using ne by (simp add: t_def tof)
  have run: "ask_planning ask qt et kw ex
       = Inr (step_record qt (fill_template (replacements (session ex) kw) t) result, ex')"
    using info ne a
    by (simp add: ask_planning_def generate_prompt_def random_choice_def t_def [symmetric] ex'_def)
  show thesis
    by (rule that [OF mem a run]) (simp_all add: ex'_def)
qed

lemma step_record_answer:
  "step_record qt p result ''answer'' = Some (PStr (dict_get result ''answer'' []))"
  by (simp add: step_record_def)

lemma step_record_fields:
  "step_record qt p result ''query_type'' = Some (PStr qt)"
  "step_record qt p result ''prompt'' = Some (PStr p)"
  "step_record qt p result ''thinking'' = Some (PStr (dict_get result ''thinking'' []))"
  "step_record qt p result ''success'' = Some (PBool True)"
  "step_record qt p result ''error'' = None"
  by (simp_all add: step_record_def)

lemma py_or_extract:
  "py_or (extract_task_from_answer a) d
     = (case extract_task_from_answer a of None \<Rightarrow> d | Some t \<Rightarrow> t)"
  using extract_task_nonempty(1) [of a]
  by (auto simp: py_or_def split: option.splits)

text \<open>The body of the pipeline, given what its four calls of \<^verbatim>\<open>ask_planning\<close> return.\<close>

lemma run_planning_pipeline_unfold:
  assumes "ask_planning ask ''generative_affordance'' et Map.empty
             (ex\<lparr>session := set_goal goal_text (session ex)\<rparr>) = Inr (step1, ex1)"
    and "ask_planning ask ''planning'' et [''goal'' \<mapsto> goal_text] ex1 = Inr (step2, ex2)"
    and "step2 ''answer'' = Some (PStr answer)"
    and "ask_planning ask ''affordance_positive'' et
           [''task'' \<mapsto> py_or (extract_task_from_answer answer) ''the first step'']
           (case extract_task_from_answer answer of
              None \<Rightarrow> ex2
            | Some t \<Rightarrow>
                if t \<noteq> [] then ex2\<lparr>session := set_current_task t (session ex2)\<rparr> else ex2)
         = Inr (step3, ex3)"
    and "ask_planning ask ''planning_remaining'' et
           [''goal'' \<mapsto> goal_text, ''num_steps'' \<mapsto> ''5''] ex3 = Inr (step4, ex4)"
  shows "run_planning_pipeline ask goal_text et now ex
     = Inr (\<lparr>r_goal = goal_text, steps = [step1, step2, step3, step4],
              r_success = True, r_timestamp = now\<rparr>,
            save_pipeline_results
              \<lparr>r_goal = goal_text, steps = [step1, step2, step3, step4],
               r_success = True, r_timestamp = now\<rparr> ex4)"
  by (simp add: run_planning_pipeline_def Let_def assms)

text \<open>
  The run of the pipeline written out: four calls of the chat object in a row, each from
  the state the call before left, the four step records in the order of the calls, and
  the save at the end. Before the save only the chat object, the session and the random
  generator have changed.
\<close>

lemma pipeline_trace:
  obtains t1 t2 t3 t4 p1 p2 p3 p4 res1 res2 res3 res4 c1 c2 c3 c4 results ex4 where
    "t1 \<in> set (templates_of ''generative_affordance'')"
    "t2 \<in> set (templates_of ''planning'')"
    "t3 \<in> set (templates_of ''affordance_positive'')"
    "t4 \<in> set (templates_of ''planning_remaining'')"
    "p1 = fill_template (replacements (set_goal goal_text (session ex)) Map.empty) t1"
    "p2 = fill_template (replacements (set_goal goal_text (session ex)) [''goal'' \<mapsto> goal_text]) t2"
    "p3 = fill_template
              [(''goal'', py_or (Some goal_text) ''complete the task''),
               (''completed_steps'', ''none''),
               (''last_task'', ''starting the task''),
               (''task'', (case extract_task_from_answer (dict_get res2 ''answer'' []) of
                             None \<Rightarrow> ''the first step'' | Some t \<Rightarrow> t)),
               (''num_steps'', ''5'')] t3"
    "p4 = fill_template
              [(''goal'', goal_text),
               (''completed_steps'', ''none''),
               (''last_task'', ''starting the task''),
               (''task'', (case extract_task_from_answer (dict_get res2 ''answer'' []) of
                             None \<Rightarrow> ''the current task'' | Some t \<Rightarrow> t)),
               (''num_steps'', ''5'')] t4"
    "ask (chat ex) p1 ''general'' et = (res1, c1)"
    "ask c1 p2 ''general'' et = (res2, c2)"
    "ask c2 p3 ''general'' et = (res3, c3)"
    "ask c3 p4 ''general'' et = (res4, c4)"
    "results = \<lparr>r_goal = goal_text,
                   steps = [step_record ''generative_affordance'' p1 res1,
                            step_record ''planning'' p2 res2,
                            step_record ''affordance_positive'' p3 res3,
                            step_record ''planning_remaining'' p4 res4],
                   r_success = True, r_timestamp = now\<rparr>"
    "run_planning_pipeline ask goal_text et now ex
         = Inr (results, save_pipeline_results results ex4)"
    "chat ex4 = c4"
    "executor_run_dir ex4 = executor_run_dir ex"
    "files ex4 = files ex"
    "directories ex4 = directories ex"
proof -
  define s0 where "s0 = set_goal goal_text (session ex)"
  define ex0 where "ex0 = ex\<lparr>session := s0\<rparr>"
  have ex0: "chat ex0 = chat ex" "session ex0 = s0" "executor_run_dir ex0 = executor_run_dir ex"
    "files ex0 = files ex" "directories ex0 = directories ex"
    by (simp_all add: ex0_def)
  obtain t1 res1 c1 ex1 where t1: "t1 \<in> set (templates_of ''generative_affordance'')"
    and a1: "ask (chat ex0) (fill_template (replacements (session ex0) Map.empty) t1) ''general'' et = (res1, c1)"
    and s1: "ask_planning ask ''generative_affordance'' et Map.empty ex0
       = Inr (step_record ''generative_affordance'' (fill_template (replacements (session ex0) Map.empty) t1) res1, ex1)"
    and ex1: "chat ex1 = c1" "session ex1 = session ex0" "executor_run_dir ex1 = executor_run_dir ex0"
      "files ex1 = files ex0" "directories ex1 = directories ex0"
    by (rule ask_planning_step [OF templates_of_known(5) templates_of_known(1),
          where ex = ex0 and kw = Map.empty and ask = ask and et = et])
  define kw2 where "kw2 = [''goal'' \<mapsto> goal_text]"
  obtain t2 res2 c2 ex2 where t2: "t2 \<in> set (templates_of ''planning'')"
    and a2: "ask (chat ex1) (fill_template (replacements (session ex1) kw2) t2) ''general'' et = (res2, c2)"
    and s2: "ask_planning ask ''planning'' et kw2 ex1
       = Inr (step_record ''planning'' (fill_template (replacements (session ex1) kw2) t2) res2, ex2)"
    and ex2: "chat ex2 = c2" "session ex2 = session ex1" "executor_run_dir ex2 = executor_run_dir ex1"
      "files ex2 = files ex1" "directories ex2 = directories ex1"
    by (rule ask_planning_step [OF templates_of_known(6) templates_of_known(2),
          where ex = ex1 and kw = kw2 and ask = ask and et = et])
  define answer where "answer = dict_get res2 ''answer'' []"
  define ft where "ft = extract_task_from_answer answer"
  define ex2' where "ex2' = (case ft of None \<Rightarrow> ex2
      | Some t \<Rightarrow> if t \<noteq> [] then ex2\<lparr>session := set_current_task t (session ex2)\<rparr> else ex2)"
  define sess where "sess = (case ft of None \<Rightarrow> s0 | Some t \<Rightarrow> set_current_task t s0)"
  have ft_ne: "ft = Some t \<Longrightarrow> t \<noteq> []" for t
    using extract_task_nonempty(1) [of answer t] by (simp add: ft_def)
  have ex2': "chat ex2' = c2" "session ex2' = sess" "executor_run_dir ex2' = executor_run_dir ex"
    "files ex2' = files ex" "directories ex2' = directories ex"
    using ft_ne by (auto simp: ex2'_def sess_def ex2 ex1 ex0 split: option.splits)
  define task where "task = (case ft of None \<Rightarrow> ''the first step'' | Some t \<Rightarrow> t)"
  define kw3 where "kw3 = [''task'' \<mapsto> py_or ft ''the first step'']"
  obtain t3 res3 c3 ex3 where t3: "t3 \<in> set (templates_of ''affordance_positive'')"
    and a3: "ask (chat ex2') (fill_template (replacements (session ex2') kw3) t3) ''general'' et = (res3, c3)"
    and s3: "ask_planning ask ''affordance_positive'' et kw3 ex2'
       = Inr (step_record ''affordance_positive'' (fill_template (replacements (session ex2') kw3) t3) res3, ex3)"
    and ex3: "chat ex3 = c3" "session ex3 = session ex2'" "executor_run_dir ex3 = executor_run_dir ex2'"
      "files ex3 = files ex2'" "directories ex3 = directories ex2'"
    by (rule ask_planning_step [OF templates_of_known(7) templates_of_known(3),
          where ex = ex2' and kw = kw3 and ask = ask and et = et])
  define kw4 where "kw4 = [''goal'' \<mapsto> goal_text, ''num_steps'' \<mapsto> ''5'']"
  obtain t4 res4 c4 ex4 where t4: "t4 \<in> set (templates_of ''planning_remaining'')"
    and a4: "ask (chat ex3) (fill_template (replacements (session ex3) kw4) t4) ''general'' et = (res4, c4)"
    and s4: "ask_planning ask ''planning_remaining'' et kw4 ex3
       = Inr (step_record ''planning_remaining'' (fill_template (replacements (session ex3) kw4) t4) res4, ex4)"
    and ex4: "chat ex4 = c4" "session ex4 = session ex3" "executor_run_dir ex4 = executor_run_dir ex3"
      "files ex4 = files ex3" "directories ex4 = directories ex3"
    by (rule ask_planning_step [OF templates_of_known(8) templates_of_known(4),
          where ex = ex3 and kw = kw4 and ask = ask and et = et])
  have s0_fields: "goal s0 = Some goal_text" "completed_tasks s0 = []" "current_task s0 = None"
    by (simp_all add: s0_def set_goal_def)
  have sess_fields: "goal sess = Some goal_text" "completed_tasks sess = []"
    "current_task sess = ft"
    using s0_fields by (auto simp: sess_def set_current_task_def split: option.splits)
  have reps3: "replacements sess kw3
      = [(''goal'', py_or (Some goal_text) ''complete the task''),
         (''completed_steps'', ''none''),
         (''last_task'', ''starting the task''),
         (''task'', (case extract_task_from_answer (dict_get res2 ''answer'' []) of
                       None \<Rightarrow> ''the first step'' | Some t \<Rightarrow> t)),
         (''num_steps'', ''5'')]"
    using py_or_extract [of answer "''the first step''"]
    by (simp add: replacements_def dict_get_def sess_fields kw3_def ft_def answer_def
        get_completed_steps_str_def get_last_task_def)
  have reps4: "replacements sess kw4
      = [(''goal'', goal_text),
         (''completed_steps'', ''none''),
         (''last_task'', ''starting the task''),
         (''task'', (case extract_task_from_answer (dict_get res2 ''answer'' []) of
                       None \<Rightarrow> ''the current task'' | Some t \<Rightarrow> t)),
         (''num_steps'', ''5'')]"
    using py_or_extract [of answer "''the current task''"]
    by (simp add: replacements_def dict_get_def sess_fields kw4_def ft_def answer_def
        get_completed_steps_str_def get_last_task_def)
  define p1 where "p1 = fill_template (replacements s0 Map.empty) t1"
  define p2 where "p2 = fill_template (replacements s0 kw2) t2"
  define p3 where "p3 = fill_template (replacements sess kw3) t3"
  define p4 where "p4 = fill_template (replacements sess kw4) t4"
  define results where "results = \<lparr>r_goal = goal_text,
       steps = [step_record ''generative_affordance'' p1 res1,
                step_record ''planning'' p2 res2,
                step_record ''affordance_positive'' p3 res3,
                step_record ''planning_remaining'' p4 res4],
       r_success = True, r_timestamp = now\<rparr>"
  have s1': "ask_planning ask ''generative_affordance'' et Map.empty
      (ex\<lparr>session := set_goal goal_text (session ex)\<rparr>)
      = Inr (step_record ''generative_affordance'' p1 res1, ex1)"
    using s1 by (simp add: p1_def ex0 ex0_def [symmetric] s0_def [symmetric])
  have s2': "ask_planning ask ''planning'' et [''goal'' \<mapsto> goal_text] ex1
      = Inr (step_record ''planning'' p2 res2, ex2)"
    using s2 by (simp add: p2_def kw2_def ex1 ex0)
  have ans: "step_record ''planning'' p2 res2 ''answer'' = Some (PStr answer)"
    by (simp add: step_record_answer answer_def)
  have s3': "ask_planning ask ''affordance_positive'' et
           [''task'' \<mapsto> py_or (extract_task_from_answer answer) ''the first step'']
           (case extract_task_from_answer answer of
              None \<Rightarrow> ex2
            | Some t \<Rightarrow>
                if t \<noteq> [] then ex2\<lparr>session := set_current_task t (session ex2)\<rparr> else ex2)
      = Inr (step_record ''affordance_positive'' p3 res3, ex3)"
    using s3 [unfolded ex2'(2), folded p3_def] by (simp only: kw3_def ex2'_def ft_def)
  have s4': "ask_planning ask ''planning_remaining'' et
           [''goal'' \<mapsto> goal_text, ''num_steps'' \<mapsto> ''5''] ex3
      = Inr (step_record ''planning_remaining'' p4 res4, ex4)"
    using s4 by (simp add: p4_def kw4_def ex3 ex2'(2))
  have run: "run_planning_pipeline ask goal_text et now ex
      = Inr (results, save_pipeline_results results ex4)"
    unfolding results_def
    by (rule run_planning_pipeline_unfold [OF s1' s2' ans s3' s4'])
  have b1: "ask (chat ex) p1 ''general'' et = (res1, c1)"
    using a1 by (simp add: p1_def ex0)
  have b2: "ask c1 p2 ''general'' et = (res2, c2)"
    using a2 by (simp add: p2_def ex1 ex0)
  have b3: "ask c2 p3 ''general'' et = (res3, c3)"
    using a3 by (simp add: p3_def ex2')
  have b4: "ask c3 p4 ''general'' et = (res4, c4)"
    using a4 by (simp add: p4_def ex3 ex2')
  have frame: "chat ex4 = c4" "executor_run_dir ex4 = executor_run_dir ex"
    "files ex4 = files ex" "directories ex4 = directories ex"
    by (simp_all add: ex4 ex3 ex2')
  have q1: "p1 = fill_template (replacements (set_goal goal_text (session ex)) Map.empty) t1"
    by (simp add: p1_def s0_def)
  have q2: "p2 = fill_template (replacements (set_goal goal_text (session ex)) [''goal'' \<mapsto> goal_text]) t2"
    by (simp add: p2_def s0_def kw2_def)
  have q3: "p3 = fill_template
              [(''goal'', py_or (Some goal_text) ''complete the task''),
               (''completed_steps'', ''none''),
               (''last_task'', ''starting the task''),
               (''task'', (case extract_task_from_answer (dict_get res2 ''answer'' []) of
                             None \<Rightarrow> ''the first step'' | Some t \<Rightarrow> t)),
               (''num_steps'', ''5'')] t3"
    by (simp only: p3_def reps3)
  have q4: "p4 = fill_template
              [(''goal'', goal_text),
               (''completed_steps'', ''none''),
               (''last_task'', ''starting the task''),
               (''task'', (case extract_task_from_answer (dict_get res2 ''answer'' []) of
                             None \<Rightarrow> ''the current task'' | Some t \<Rightarrow> t)),
               (''num_steps'', ''5'')] t4"
    by (simp only: p4_def reps4)
  show thesis
    by (rule that [OF t1 t2 t3 t4 q1 q2 q3 q4 b1 b2 b3 b4 results_def run frame])
qed

section \<open>Bounded conversation history\<close>

lemma evict_drop: "evict m ts = drop (length ts - m) ts"
proof (induction m ts rule: evict.induct)
  case (1 m ts)
  show ?case
  proof (cases "m < length ts")
    case False
    then show ?thesis by (simp add: evict.simps [of m ts])
  next
    case True
    then have "evict m ts = drop (length (tl ts) - m) (tl ts)"
      using "1" by (simp add: evict.simps [of m ts])
    also have "\<dots> = drop (Suc (length (tl ts) - m)) ts"
      by (simp add: drop_Suc)
    also have "Suc (length (tl ts) - m) = length ts - m"
      using True by (cases ts) auto
    finally show ?thesis .
  qed
qed

lemma apply_memory_op_turns:
  "turns (apply_memory_op op mem) = evict (max_turns mem) (turns mem @ [turn_of op])"
  "max_turns (apply_memory_op op mem) = max_turns mem"
  by (cases op; simp add: add_user_turn_def add_assistant_turn_def append_turn_def)+

lemma drop_window_step:
  "drop (length (drop (length xs - m) xs @ [t]) - m) (drop (length xs - m) xs @ [t])
     = drop (length (xs @ [t]) - m) (xs @ [t])"
proof (cases "length xs < m")
  case True
  then show ?thesis by simp
next
  case False
  then have le: "m \<le> length xs" by simp
  show ?thesis
  proof (cases "m = 0")
    case True
    then show ?thesis by simp
  next
    case False
    with le have "length (drop (length xs - m) xs @ [t]) - m = Suc 0"
      and "length (xs @ [t]) - m = Suc (length xs - m)"
      and "Suc (length xs - m) \<le> length xs"
      by auto
    then show ?thesis by (simp add: drop_Suc tl_drop [symmetric] del: tl_drop)
  qed
qed

lemma run_memory_ops_turns:
  "turns (run_memory_ops ops (ConversationMemory_init m))
     = drop (length ops - m) (map turn_of ops)
   \<and> max_turns (run_memory_ops ops (ConversationMemory_init m)) = m"
proof (induction ops rule: rev_induct)
  case Nil
  then show ?case by (simp add: run_memory_ops_def ConversationMemory_init_def)
next
  case (snoc op ops)
  let ?mem = "run_memory_ops ops (ConversationMemory_init m)"
  have run: "run_memory_ops (ops @ [op]) (ConversationMemory_init m) = apply_memory_op op ?mem"
    by (simp add: run_memory_ops_def)
  have "turns (apply_memory_op op ?mem)
      = drop (length (drop (length ops - m) (map turn_of ops) @ [turn_of op]) - m)
          (drop (length ops - m) (map turn_of ops) @ [turn_of op])"
    using snoc by (simp add: apply_memory_op_turns evict_drop)
  also have "\<dots> = drop (length (ops @ [op]) - m) (map turn_of (ops @ [op]))"
    using drop_window_step [of "map turn_of ops" m "turn_of op"] by simp
  finally show ?case using snoc run by (simp add: apply_memory_op_turns)
qed

lemma length_question_rounds: "length (question_rounds n) = 2 * n"
  by (induction n) simp_all

text \<open>
  Claim C6. From an empty memory with the bound \<^verbatim>\<open>max_turns\<close>, after every sequence of
  user and assistant appends the memory holds at most \<^verbatim>\<open>max_turns\<close> turns, and they are
  the last \<^verbatim>\<open>max_turns\<close> of the appended turns in the order of their insertion (all of
  them while the bound is not exceeded). Every prefix of a sequence is a sequence, so
  this holds after every single operation. Ten rounds of question and answer with the
  bound 5 leave 5 turns, as the unit test asserts.
\<close>

theorem memory_bounded_fifo:
  "length (turns (run_memory_ops ops (ConversationMemory_init m))) \<le> m
   \<and> turns (run_memory_ops ops (ConversationMemory_init m))
       = drop (length ops - m) (map turn_of ops)
   \<and> (m < length ops \<longrightarrow>
        length (turns (run_memory_ops ops (ConversationMemory_init m))) = m)
   \<and> length (turns (run_memory_ops (question_rounds 10) (ConversationMemory_init 5))) = 5"
proof -
  have t: "turns (run_memory_ops ops (ConversationMemory_init m))
       = drop (length ops - m) (map turn_of ops)" for ops m
    using run_memory_ops_turns by blast
  have "length (turns (run_memory_ops (question_rounds 10) (ConversationMemory_init 5))) = 5"
    by (simp add: t length_question_rounds)
  then show ?thesis by (auto simp: t)
qed

theorem memory_bounded_fifo_witness:
  "(1::nat) < length [AddUser ''q0'' None None ''t0'', AddAssistant ''a0'' ''t1'',
                      AddUser ''q1'' None None ''t2'']
   \<and> turns (run_memory_ops
        [AddUser ''q0'' None None ''t0'', AddAssistant ''a0'' ''t1'', AddUser ''q1'' None None ''t2'']
        (ConversationMemory_init 1))
      = [\<lparr>role = User, content = ''q1'', image_ref = None, task_tag = None, timestamp = ''t2''\<rparr>]"
  using memory_bounded_fifo
    [of "[AddUser ''q0'' None None ''t0'', AddAssistant ''a0'' ''t1'', AddUser ''q1'' None None ''t2'']" 1]
  by simp

end
